theory Spec2Isabelle
  imports Complex_Main "HOL-Library.Sublist" "HOL-Library.Multiset" "HOL-Library.List_Lexorder"
begin

text \<open>
  A model of the contact-sync service that relays guest contacts of WiFi access points
  to a CRM: the identity normalizers, the mapping store, the site matcher, the
  credential lifecycle and the sync pipeline, followed by the properties proved of
  them.  Each definition follows the JavaScript function of the same name; a database
  table is a list of rows, an exception is the \<open>Inl\<close> of a sum, and the answers of the
  CRM, the clock and the failures of the storage layer are inputs.
\<close>

section \<open>Strings\<close>

text \<open>
  JavaScript strings are modelled as \<open>string\<close> (a list of 8-bit characters).  The case
  conversions \<open>toLowerCase\<close>/\<open>toUpperCase\<close> (and SQL \<open>LOWER\<close>) act on the ASCII letters
  and leave every other character alone; white space (\<open>\s\<close>, \<open>trim\<close>) is the ASCII white
  space: space, tab, line feed, vertical tab, form feed, carriage return.
\<close>

definition toLowerCase_char :: "char \<Rightarrow> char" where
  "toLowerCase_char c =
     (let n = (of_char c :: nat) in if 65 \<le> n \<and> n \<le> 90 then char_of (n + 32) else c)"

definition toUpperCase_char :: "char \<Rightarrow> char" where
  "toUpperCase_char c =
     (let n = (of_char c :: nat) in if 97 \<le> n \<and> n \<le> 122 then char_of (n - 32) else c)"

definition toLowerCase :: "string \<Rightarrow> string" where
  "toLowerCase s = map toLowerCase_char s"

definition toUpperCase :: "string \<Rightarrow> string" where
  "toUpperCase s = map toUpperCase_char s"

definition is_space :: "char \<Rightarrow> bool" where
  "is_space c = (c \<in> set [CHR '' '', CHR 0x09, CHR 0x0A, CHR 0x0B, CHR 0x0C, CHR 0x0D])"

definition trim :: "string \<Rightarrow> string" where
  "trim s = rev (dropWhile is_space (rev (dropWhile is_space s)))"

text \<open>\<open>s.replace(/-/g, ':')\<close>\<close>

definition replace_hyphens :: "string \<Rightarrow> string" where
  "replace_hyphens s = map (\<lambda>c. if c = CHR ''-'' then CHR '':'' else c) s"

text \<open>\<open>parts.join(sep)\<close>\<close>

fun join :: "string \<Rightarrow> string list \<Rightarrow> string" where
  "join sep [] = []"
| "join sep [p] = p"
| "join sep (p # q # ps) = p @ sep @ join sep (q # ps)"

section \<open>Identity normalizer\<close>

text \<open>
  \<open>normalizeMacAddress\<close> of the manual set-up route:
  \<^verbatim>\<open>
  if (!mac) return null;
  const cleaned = mac.replace(/[:\-\.\s]/g, '').toLowerCase();
  if (!/^[0-9a-f]{12}$/.test(cleaned)) return null;
  return cleaned.match(/.{2}/g).join(':');
  \<close>
\<close>

definition is_mac_separator :: "char \<Rightarrow> bool" where
  "is_mac_separator c = (c = CHR '':'' \<or> c = CHR ''-'' \<or> c = CHR ''.'' \<or> is_space c)"

definition is_lower_hex :: "char \<Rightarrow> bool" where
  "is_lower_hex c = (c \<in> set ''0123456789abcdef'')"

text \<open>\<open>s.match(/.{2}/g)\<close>: the consecutive two-character pieces, a last odd character dropped.\<close>

fun match_pairs :: "string \<Rightarrow> string list" where
  "match_pairs (a # b # r) = [a, b] # match_pairs r"
| "match_pairs _ = []"

definition normalizeMacAddress :: "string \<Rightarrow> string option" where
  "normalizeMacAddress mac =
     (if mac = [] then None
      else let cleaned = toLowerCase (filter (\<lambda>c. \<not> is_mac_separator c) mac) in
        if \<not> (length cleaned = 12 \<and> list_all is_lower_hex cleaned) then None
        else Some (join '':'' (match_pairs cleaned)))"

section \<open>Inbound events\<close>

text \<open>
  The opt-in signal of an event is an arbitrary JSON value.  A number is kept as its
  (rational) value; it only matters whether it is zero.
\<close>

datatype json =
    JUndefined
  | JNull
  | JBool bool
  | JNum rat
  | JStr string
  | JArr "json list"
  | JObj "(string \<times> json) list"

text \<open>JavaScript truthiness, as used by \<open>Object.values(optIn).some(v => v)\<close>.\<close>

fun truthy :: "json \<Rightarrow> bool" where
  "truthy JUndefined = False"
| "truthy JNull = False"
| "truthy (JBool b) = b"
| "truthy (JNum r) = (r \<noteq> 0)"
| "truthy (JStr s) = (s \<noteq> [])"
| "truthy (JArr xs) = True"
| "truthy (JObj kvs) = True"

text \<open>
  \<open>isOptedIn\<close>: \<open>undefined\<close> and \<open>null\<close> first, then the \<open>typeof\<close> tests in the order
  boolean, string, array, object; everything else (a number) is not an opt-in.
\<close>

fun isOptedIn :: "json \<Rightarrow> bool" where
  "isOptedIn JUndefined = False"
| "isOptedIn JNull = False"
| "isOptedIn (JBool b) = b"
| "isOptedIn (JStr s) =
     (let lower = toLowerCase s in lower = ''yes'' \<or> lower = ''true'' \<or> lower = ''1'')"
| "isOptedIn (JArr xs) = (length xs > 0)"
| "isOptedIn (JObj kvs) = list_ex truthy (map snd kvs)"
| "isOptedIn (JNum r) = False"

text \<open>
  The contact handed to \<open>processContact\<close>.  \<open>mac\<close>, \<open>email\<close>, \<open>name\<close> and \<open>phone\<close> are
  strings as documented; \<open>None\<close> is an absent (\<open>undefined\<close> or \<open>null\<close>) field.
\<close>

record contact =
  c_mac :: "string option"
  c_email :: "string option"
  c_name :: "string option"
  c_phone :: "string option"
  c_opt_in :: json

text \<open>
  \<open>s.split(/[...]+/)\<close> for a character class: the pieces between maximal runs of
  separator characters, with an empty first (last) piece when the string starts
  (ends) with a separator.  The first argument of \<open>split_runs_from\<close> is the piece read
  so far.
\<close>

function split_runs_from :: "(char \<Rightarrow> bool) \<Rightarrow> string \<Rightarrow> string \<Rightarrow> string list" where
  "split_runs_from sep piece [] = [piece]"
| "split_runs_from sep piece (c # cs) =
     (if sep c then piece # split_runs_from sep [] (dropWhile sep cs)
      else split_runs_from sep (piece @ [c]) cs)"
  by pat_completeness auto
termination
  by (relation "measure (\<lambda>(sep, piece, s). length s)")
     (auto simp: less_Suc_eq_le length_dropWhile_le)

definition split_runs :: "(char \<Rightarrow> bool) \<Rightarrow> string \<Rightarrow> string list" where
  "split_runs sep s = split_runs_from sep [] s"

text \<open>
  \<open>parseName\<close>: an absent or empty name gives two empty names; otherwise the name is
  trimmed and split at white space, the first piece is the first name and the other
  pieces, joined by single spaces, the last name.
\<close>

definition parseName :: "string option \<Rightarrow> string \<times> string" where
  "parseName name =
     (case name of
        None \<Rightarrow> ([], [])
      | Some n \<Rightarrow>
          if n = [] then ([], [])
          else (case split_runs is_space (trim n) of
                  [] \<Rightarrow> ([], [])
                | [p] \<Rightarrow> (p, [])
                | p # ps \<Rightarrow> (p, join '' '' ps)))"

section \<open>Stores\<close>

text \<open>
  The tables of the schema (\<open>001_initial.sql\<close>) as lists of rows, in insertion order.
  Timestamps are milliseconds since the epoch.  Columns that no modelled query reads
  (\<open>id\<close>, \<open>ghl_company_id\<close>, \<open>installed_at\<close>, \<open>created_at\<close>, \<open>synced_at\<close>, \<open>sync_type\<close>)
  are left out.
\<close>

record ghl_connection =
  gc_ghl_location_id :: string
  gc_access_token :: string
  gc_refresh_token :: string
  gc_token_expires_at :: int
  gc_is_active :: bool

record location_mapping =
  lm_ghl_location_id :: string
  lm_vivaspot_mac :: string
  lm_vivaspot_location :: string

record synced_contact =
  sc_ghl_location_id :: string
  sc_contact_email :: string
  sc_ghl_contact_id :: "string option"

record sync_log_entry =
  sl_ghl_location_id :: string
  sl_vivaspot_mac :: string
  sl_contact_email :: string
  sl_status :: string
  sl_ghl_contact_id :: "string option"
  sl_error_message :: "string option"

text \<open>A row of the join that \<open>getLocationByMAC\<close> selects.\<close>

record mapping_row =
  ghl_location_id :: string
  vivaspot_mac :: string
  vivaspot_location :: string
  access_token :: string
  refresh_token :: string
  token_expires_at :: int

section \<open>The CRM and the environment of one invocation\<close>

text \<open>
  What \<open>fetch\<close> does: it throws (network failure, unreadable body), or answers with a
  status that is not ok and a body text, or answers ok with a parsed body.
\<close>

datatype 'a http_result = Thrown string | NotOk nat string | Ok 'a

record token_reply =
  tr_accessToken :: string
  tr_refreshToken :: string
  tr_expiresIn :: int

text \<open>
  The body of the contact-creation request; \<open>firstName\<close>, \<open>lastName\<close> and \<open>phone\<close> are
  present only when they have a value.
\<close>

record contact_body =
  cb_locationId :: string
  cb_email :: string
  cb_source :: string
  cb_tags :: "string list"
  cb_firstName :: "string option"
  cb_lastName :: "string option"
  cb_phone :: "string option"

text \<open>The requests sent to the CRM, in order.\<close>

datatype crm_call =
    RefreshCall string
  | CreateContactCall string contact_body

text \<open>The places where the pipeline runs a query; a query may throw.\<close>

datatype db_call =
    AtGetLocationByMAC
  | AtIsContactSynced
  | AtUpdateGHLTokens
  | AtRecordSyncedContact
  | AtLogSyncSuccess
  | AtLogSyncError

text \<open>
  Everything outside the program that one invocation of the pipeline depends on: the
  two readings of the clock (\<open>Date.now()\<close> in \<open>ensureValidToken\<close> and in
  \<open>updateGHLTokens\<close>), the answers of the CRM's token and contact endpoints (the
  \<open>contact\<close> field of the answer may be missing, and it may lack an \<open>id\<close>), and for each
  query whether the storage layer throws, with the message of the exception.
\<close>

record env =
  now_check :: int
  now_persist :: int
  refresh_reply :: "token_reply http_result"
  create_reply :: "string option option http_result"
  db_fault :: "db_call \<Rightarrow> string option"

text \<open>The state the pipeline works on: four tables and the requests sent so far.\<close>

record system =
  ghl_connections :: "ghl_connection list"
  location_mappings :: "location_mapping list"
  synced_contacts :: "synced_contact list"
  sync_log :: "sync_log_entry list"
  crm_calls :: "crm_call list"

section \<open>Queries\<close>

text \<open>
  A function that can throw returns \<open>Inl message\<close> for the exception and \<open>Inr value\<close>
  otherwise.
\<close>

text \<open>
  \<open>updateGHLTokens\<close>: \<open>UPDATE ghl_connections SET access_token, refresh_token,
  token_expires_at WHERE ghl_location_id = $1\<close>; \<open>retoken\<close> is its effect on one row.
\<close>

definition retoken :: "string \<Rightarrow> string \<Rightarrow> string \<Rightarrow> int \<Rightarrow> ghl_connection \<Rightarrow> ghl_connection" where
  "retoken locationId accessToken refreshToken expiresAt gc =
     (if gc_ghl_location_id gc = locationId
      then gc\<lparr>gc_access_token := accessToken, gc_refresh_token := refreshToken,
              gc_token_expires_at := expiresAt\<rparr>
      else gc)"

definition updateGHLTokens ::
  "env \<Rightarrow> system \<Rightarrow> string \<Rightarrow> string \<Rightarrow> string \<Rightarrow> int \<Rightarrow> string + system" where
  "updateGHLTokens e s locationId accessToken refreshToken expiresIn =
     (case db_fault e AtUpdateGHLTokens of
        Some msg \<Rightarrow> Inl msg
      | None \<Rightarrow>
          let expiresAt = now_persist e + expiresIn * 1000 in
          Inr (s\<lparr>ghl_connections :=
                   map (retoken locationId accessToken refreshToken expiresAt) (ghl_connections s)\<rparr>))"

text \<open>
  \<open>getLocationByMAC\<close>: the mappings of the normalized MAC joined with the active
  connection of their location; the first row, if any.
\<close>

definition normalize_mac_upper :: "string \<Rightarrow> string" where
  "normalize_mac_upper mac = replace_hyphens (toUpperCase mac)"

definition join_row :: "location_mapping \<Rightarrow> ghl_connection \<Rightarrow> mapping_row" where
  "join_row lm gc =
     \<lparr>ghl_location_id = lm_ghl_location_id lm,
      vivaspot_mac = lm_vivaspot_mac lm,
      vivaspot_location = lm_vivaspot_location lm,
      access_token = gc_access_token gc,
      refresh_token = gc_refresh_token gc,
      token_expires_at = gc_token_expires_at gc\<rparr>"

definition location_rows :: "system \<Rightarrow> string \<Rightarrow> mapping_row list" where
  "location_rows s normalizedMac =
     concat (map (\<lambda>lm. map (join_row lm)
                          (filter (\<lambda>gc. lm_ghl_location_id lm = gc_ghl_location_id gc
                                        \<and> gc_is_active gc)
                                  (ghl_connections s)))
                 (filter (\<lambda>lm. lm_vivaspot_mac lm = normalizedMac) (location_mappings s)))"

definition getLocationByMAC :: "env \<Rightarrow> system \<Rightarrow> string \<Rightarrow> string + mapping_row option" where
  "getLocationByMAC e s mac =
     (case db_fault e AtGetLocationByMAC of
        Some msg \<Rightarrow> Inl msg
      | None \<Rightarrow>
          (case location_rows s (normalize_mac_upper mac) of
             [] \<Rightarrow> Inr None
           | row # _ \<Rightarrow> Inr (Some row)))"

text \<open>\<open>addLocationMapping\<close> (the storage layer is taken to answer).\<close>

definition addLocationMapping ::
  "location_mapping list \<Rightarrow> string \<Rightarrow> string \<Rightarrow> string \<Rightarrow> location_mapping list" where
  "addLocationMapping tbl locationId mac locationName =
     (let normalizedMac = normalize_mac_upper mac in
      if list_ex (\<lambda>lm. lm_ghl_location_id lm = locationId \<and> lm_vivaspot_mac lm = normalizedMac) tbl
      then map (\<lambda>lm. if lm_ghl_location_id lm = locationId \<and> lm_vivaspot_mac lm = normalizedMac
                      then lm\<lparr>lm_vivaspot_location := locationName\<rparr> else lm) tbl
      else tbl @ [\<lparr>lm_ghl_location_id = locationId, lm_vivaspot_mac = normalizedMac,
                   lm_vivaspot_location = locationName\<rparr>])"

definition has_marker :: "synced_contact list \<Rightarrow> string \<Rightarrow> string \<Rightarrow> bool" where
  "has_marker tbl locationId lowered =
     list_ex (\<lambda>sc. sc_ghl_location_id sc = locationId \<and> sc_contact_email sc = lowered) tbl"

definition isContactSynced :: "env \<Rightarrow> system \<Rightarrow> string \<Rightarrow> string \<Rightarrow> string + bool" where
  "isContactSynced e s locationId email =
     (case db_fault e AtIsContactSynced of
        Some msg \<Rightarrow> Inl msg
      | None \<Rightarrow> Inr (has_marker (synced_contacts s) locationId (toLowerCase email)))"

text \<open>\<open>recordSyncedContact\<close>: \<open>INSERT ... ON CONFLICT (ghl_location_id, contact_email) DO NOTHING\<close>.\<close>

definition recordSyncedContact ::
  "env \<Rightarrow> system \<Rightarrow> string \<Rightarrow> string \<Rightarrow> string option \<Rightarrow> string + system" where
  "recordSyncedContact e s locationId email ghlContactId =
     (case db_fault e AtRecordSyncedContact of
        Some msg \<Rightarrow> Inl msg
      | None \<Rightarrow>
          if has_marker (synced_contacts s) locationId (toLowerCase email) then Inr s
          else Inr (s\<lparr>synced_contacts := synced_contacts s @
                        [\<lparr>sc_ghl_location_id = locationId,
                          sc_contact_email = toLowerCase email,
                          sc_ghl_contact_id = ghlContactId\<rparr>]\<rparr>))"

text \<open>\<open>logSync\<close>, with the place it is called from.\<close>

definition logSync :: "env \<Rightarrow> db_call \<Rightarrow> system \<Rightarrow> sync_log_entry \<Rightarrow> string + system" where
  "logSync e site s entry =
     (case db_fault e site of
        Some msg \<Rightarrow> Inl msg
      | None \<Rightarrow> Inr (s\<lparr>sync_log := sync_log s @ [entry]\<rparr>))"

section \<open>Credential lifecycle\<close>

definition refreshAccessToken :: "env \<Rightarrow> system \<Rightarrow> string \<Rightarrow> (string + token_reply) \<times> system" where
  "refreshAccessToken e s refreshToken =
     (let s' = s\<lparr>crm_calls := crm_calls s @ [RefreshCall refreshToken]\<rparr> in
      case refresh_reply e of
        Thrown msg \<Rightarrow> (Inl msg, s')
      | NotOk code body \<Rightarrow> (Inl (''Token refresh failed: '' @ body), s')
      | Ok data \<Rightarrow> (Inr data, s'))"

definition ensureValidToken :: "env \<Rightarrow> system \<Rightarrow> mapping_row \<Rightarrow> (string + string) \<times> system" where
  "ensureValidToken e s connection =
     (let expiresAt = token_expires_at connection;
          fiveMinutesFromNow = now_check e + 5 * 60 * 1000 in
      if expiresAt > fiveMinutesFromNow then (Inr (access_token connection), s)
      else
        (case refreshAccessToken e s (refresh_token connection) of
           (Inl msg, s1) \<Rightarrow> (Inl msg, s1)
         | (Inr newTokens, s1) \<Rightarrow>
             (case updateGHLTokens e s1 (ghl_location_id connection) (tr_accessToken newTokens)
                     (tr_refreshToken newTokens) (tr_expiresIn newTokens) of
                Inl msg \<Rightarrow> (Inl msg, s1)
              | Inr s2 \<Rightarrow> (Inr (tr_accessToken newTokens), s2))))"

section \<open>Contact creation\<close>

text \<open>The decimal rendering of \<open>response.status\<close> in the error message.\<close>

function show_nat :: "nat \<Rightarrow> string" where
  "show_nat n =
     (if n < 10 then [char_of (48 + n)]
      else show_nat (n div 10) @ [char_of (48 + n mod 10)])"
  by pat_completeness auto
termination
  by (relation "measure (\<lambda>n. n)") auto

declare show_nat.simps [simp del]

definition present :: "string option \<Rightarrow> string option" where
  "present v = (case v of None \<Rightarrow> None | Some t \<Rightarrow> if t = [] then None else Some t)"

definition createContact ::
  "env \<Rightarrow> system \<Rightarrow> string \<Rightarrow> string \<Rightarrow> string \<Rightarrow> string \<Rightarrow> string \<Rightarrow> string option
     \<Rightarrow> string \<Rightarrow> string list \<Rightarrow> (string + string option option) \<times> system" where
  "createContact e s accessToken locationId email firstName lastName phone source tags =
     (let body = \<lparr>cb_locationId = locationId, cb_email = email, cb_source = source,
                  cb_tags = tags, cb_firstName = present (Some firstName),
                  cb_lastName = present (Some lastName), cb_phone = present phone\<rparr>;
          s' = s\<lparr>crm_calls := crm_calls s @ [CreateContactCall accessToken body]\<rparr> in
      case create_reply e of
        Thrown msg \<Rightarrow> (Inl msg, s')
      | NotOk code err \<Rightarrow>
          (Inl (''Create contact failed: '' @ show_nat code @ '' - '' @ err), s')
      | Ok data \<Rightarrow> (Inr data, s'))"

section \<open>The sync pipeline\<close>

record sync_result =
  status :: string
  reason :: "string option"
  res_ghl_contact_id :: "string option"
  res_ghl_location_id :: "string option"

definition outcome :: "string \<Rightarrow> string \<Rightarrow> sync_result" where
  "outcome st why =
     \<lparr>status = st, reason = Some why, res_ghl_contact_id = None, res_ghl_location_id = None\<rparr>"

text \<open>The message of the \<open>TypeError\<close> raised by \<open>ghlContact.id\<close> when the contact is missing.\<close>

definition missing_contact_message :: string where
  "missing_contact_message = ''Cannot read properties of undefined (reading 'id')''"

text \<open>
  The body of the \<open>try\<close> block of \<open>processContact\<close>: token, name, CRM call, marker,
  ledger entry.  \<open>Inl\<close> is the exception that reaches the \<open>catch\<close>, with the state at
  the moment it is thrown.
\<close>

definition try_sync ::
  "env \<Rightarrow> system \<Rightarrow> mapping_row \<Rightarrow> string \<Rightarrow> string \<Rightarrow> string option \<Rightarrow> string option
     \<Rightarrow> (string + sync_result) \<times> system" where
  "try_sync e s mapping mac email name phone =
     (let locationId = ghl_location_id mapping in
      case ensureValidToken e s mapping of
        (Inl msg, s1) \<Rightarrow> (Inl msg, s1)
      | (Inr accessToken, s1) \<Rightarrow>
          (let (firstName, lastName) = parseName name in
           case createContact e s1 accessToken locationId email firstName lastName phone
                  ''VivaSpot WiFi'' [''vivaspot-wifi''] of
             (Inl msg, s2) \<Rightarrow> (Inl msg, s2)
           | (Inr None, s2) \<Rightarrow> (Inl missing_contact_message, s2)
           | (Inr (Some contactId), s2) \<Rightarrow>
               (case recordSyncedContact e s2 locationId email contactId of
                  Inl msg \<Rightarrow> (Inl msg, s2)
                | Inr s3 \<Rightarrow>
                    (case logSync e AtLogSyncSuccess s3
                            \<lparr>sl_ghl_location_id = locationId, sl_vivaspot_mac = mac,
                             sl_contact_email = email, sl_status = ''success'',
                             sl_ghl_contact_id = contactId, sl_error_message = None\<rparr> of
                       Inl msg \<Rightarrow> (Inl msg, s3)
                     | Inr s4 \<Rightarrow>
                         (Inr \<lparr>status = ''success'', reason = None,
                               res_ghl_contact_id = contactId,
                               res_ghl_location_id = Some locationId\<rparr>, s4)))))"

text \<open>
  \<open>processContact\<close>.  The result is \<open>Inr\<close> of the result object the function returns, or
  \<open>Inl\<close> of the message of an exception that leaves the function; the second component
  is the state afterwards.
\<close>

definition processContact :: "env \<Rightarrow> system \<Rightarrow> contact \<Rightarrow> (string + sync_result) \<times> system" where
  "processContact e s c =
     (case present (c_mac c) of
        None \<Rightarrow> (Inr (outcome ''error'' ''Missing MAC address''), s)
      | Some mac \<Rightarrow>
     (case present (c_email c) of
        None \<Rightarrow> (Inr (outcome ''error'' ''Missing email address''), s)
      | Some email \<Rightarrow>
     if \<not> isOptedIn (c_opt_in c) then (Inr (outcome ''skipped'' ''Not opted in''), s)
     else
     (case getLocationByMAC e s mac of
        Inl msg \<Rightarrow> (Inl msg, s)
      | Inr None \<Rightarrow> (Inr (outcome ''skipped'' ''No GHL mapping for this MAC address''), s)
      | Inr (Some mapping) \<Rightarrow>
     (let locationId = ghl_location_id mapping in
      case isContactSynced e s locationId email of
        Inl msg \<Rightarrow> (Inl msg, s)
      | Inr True \<Rightarrow> (Inr (outcome ''skipped'' ''Already synced''), s)
      | Inr False \<Rightarrow>
     (case try_sync e s mapping mac email (c_name c) (c_phone c) of
        (Inr result, s') \<Rightarrow> (Inr result, s')
      | (Inl message, s') \<Rightarrow>
          (case logSync e AtLogSyncError s'
                  \<lparr>sl_ghl_location_id = locationId, sl_vivaspot_mac = mac,
                   sl_contact_email = email, sl_status = ''error'',
                   sl_ghl_contact_id = None, sl_error_message = Some message\<rparr> of
             Inl msg \<Rightarrow> (Inl msg, s')
           | Inr s'' \<Rightarrow> (Inr (outcome ''error'' message), s'')))))))"

text \<open>\<open>getGHLConnection\<close>: the active connection of a location (the storage layer is taken to answer).\<close>

definition getGHLConnection :: "system \<Rightarrow> string \<Rightarrow> ghl_connection option" where
  "getGHLConnection s locationId =
     (case filter (\<lambda>gc. gc_ghl_location_id gc = locationId \<and> gc_is_active gc) (ghl_connections s) of
        [] \<Rightarrow> None
      | gc # _ \<Rightarrow> Some gc)"

text \<open>
  The ledger is backed by markers when every success entry of the ledger has the
  marker of its location and (lower-cased) email.
\<close>

definition ledger_backed :: "system \<Rightarrow> bool" where
  "ledger_backed s =
     list_all (\<lambda>l. sl_status l = ''success'' \<longrightarrow>
                     has_marker (synced_contacts s) (sl_ghl_location_id l)
                       (toLowerCase (sl_contact_email l)))
              (sync_log s)"

section \<open>Mapping store (\<open>mac_mappings\<close>)\<close>

text \<open>
  The table \<open>mac_mappings\<close> as a list of rows.  The operations on it are modelled with
  a storage layer that answers every query.
\<close>

record mac_mapping =
  mm_mac_address :: string
  mm_ghl_location_id :: string
  mm_source_restaurant :: "string option"
  mm_source_tag :: "string option"

definition normalize_mac_lower :: "string \<Rightarrow> string" where
  "normalize_mac_lower mac = trim (toLowerCase mac)"

text \<open>
  One round of the loop of \<open>createMacMappingsWithTag\<close> on an accepted MAC: update the
  rows of that MAC if there is one, insert a row otherwise.
\<close>

definition upsert_mac ::
  "mac_mapping list \<Rightarrow> string \<Rightarrow> string \<Rightarrow> string option \<Rightarrow> string option \<Rightarrow> mac_mapping list" where
  "upsert_mac tbl normalizedMac locationId sourceRestaurant sourceTag =
     (if length (filter (\<lambda>r. mm_mac_address r = normalizedMac) tbl) > 0
      then map (\<lambda>r. if mm_mac_address r = normalizedMac
                     then r\<lparr>mm_ghl_location_id := locationId,
                            mm_source_restaurant := sourceRestaurant,
                            mm_source_tag := sourceTag\<rparr>
                     else r) tbl
      else tbl @ [\<lparr>mm_mac_address = normalizedMac, mm_ghl_location_id = locationId,
                   mm_source_restaurant = sourceRestaurant, mm_source_tag = sourceTag\<rparr>])"

text \<open>The loop, on the pair of the counter \<open>created\<close> and the table.\<close>

fun map_macs ::
  "string \<Rightarrow> string option \<Rightarrow> string option \<Rightarrow> string list \<Rightarrow> nat \<times> mac_mapping list
     \<Rightarrow> nat \<times> mac_mapping list" where
  "map_macs locationId sourceRestaurant sourceTag [] (created, tbl) = (created, tbl)"
| "map_macs locationId sourceRestaurant sourceTag (mac # rest) (created, tbl) =
     (let normalizedMac = normalize_mac_lower mac in
      if normalizedMac = [] \<or> length normalizedMac < 11
      then map_macs locationId sourceRestaurant sourceTag rest (created, tbl)
      else map_macs locationId sourceRestaurant sourceTag rest
             (created + 1, upsert_mac tbl normalizedMac locationId sourceRestaurant sourceTag))"

text \<open>
  \<open>createMacMappingsWithTag\<close> returns the counter; the second component is the table
  afterwards.  \<open>None\<close> is an absent list of MAC addresses.
\<close>

definition createMacMappingsWithTag ::
  "mac_mapping list \<Rightarrow> string \<Rightarrow> string list option \<Rightarrow> string option \<Rightarrow> string option
     \<Rightarrow> nat \<times> mac_mapping list" where
  "createMacMappingsWithTag tbl locationId macAddresses sourceRestaurant sourceTag =
     (case macAddresses of
        None \<Rightarrow> (0, tbl)
      | Some macs \<Rightarrow>
          if length macs = 0 then (0, tbl)
          else map_macs locationId sourceRestaurant sourceTag macs (0, tbl))"

definition createMacMappings ::
  "mac_mapping list \<Rightarrow> string \<Rightarrow> string list option \<Rightarrow> nat \<times> mac_mapping list" where
  "createMacMappings tbl locationId macAddresses =
     createMacMappingsWithTag tbl locationId macAddresses None None"

definition getMacMappingWithTag :: "mac_mapping list \<Rightarrow> string \<Rightarrow> mac_mapping option" where
  "getMacMappingWithTag tbl macAddress =
     (case filter (\<lambda>r. mm_mac_address r = normalize_mac_lower macAddress) tbl of
        [] \<Rightarrow> None
      | r # _ \<Rightarrow> Some r)"

text \<open>
  The handler of \<open>POST /setup/:locationId/save\<close> (manual set-up): every entry is
  normalized with \<open>normalizeMacAddress\<close>; one bad entry rejects the request; otherwise
  the normalized identifiers are mapped to the location, which must be connected.
\<close>

datatype save_response = Bad_request string | Not_found string | Saved nat

definition setup_save ::
  "system \<Rightarrow> mac_mapping list \<Rightarrow> string \<Rightarrow> string list \<Rightarrow> save_response \<times> mac_mapping list" where
  "setup_save s tbl locationId macAddresses =
     (if locationId = [] then (Bad_request ''Missing location ID'', tbl)
      else if length macAddresses = 0 then (Bad_request ''No MAC addresses provided'', tbl)
      else
        let normalizedMacs = List.map_filter normalizeMacAddress macAddresses;
            invalidMacs = filter (\<lambda>mac. normalizeMacAddress mac = None) macAddresses
        in
        if length invalidMacs > 0
        then (Bad_request (''Invalid MAC address format: '' @ join '', '' invalidMacs), tbl)
        else
          (case getGHLConnection s locationId of
             None \<Rightarrow> (Not_found ''GHL location not found. Please complete OAuth first.'', tbl)
           | Some connection \<Rightarrow>
               (case createMacMappings tbl locationId (Some normalizedMacs) of
                  (mapped, tbl') \<Rightarrow> (Saved mapped, tbl'))))"

section \<open>Site matcher\<close>

record vivaspot_site =
  vs_id :: nat
  vs_restaurant_name :: string
  vs_hospitality_group :: "string option"
  vs_address :: "string option"
  vs_merchant_emails :: "string list"
  vs_mac_addresses :: "string list"

datatype match_result =
    MatchGroup "string option" "vivaspot_site list"
  | MatchSingle vivaspot_site
  | MatchNone

text \<open>
  SQL \<open>text LIKE pattern\<close>: \<open>%\<close> stands for any sequence of characters, \<open>_\<close> for any one
  character, and a backslash makes the next character of the pattern literal.  (A
  pattern that ends in a lone backslash is an error in SQL; every pattern built below
  ends in \<open>%\<close>.)
\<close>

fun like_match :: "string \<Rightarrow> string \<Rightarrow> bool" where
  "like_match [] s = (s = [])"
| "like_match (c # p) s =
     (if c = CHR ''%'' then
        like_match p s \<or> (case s of [] \<Rightarrow> False | x # t \<Rightarrow> like_match (c # p) t)
      else if c = CHR ''_'' then
        (case s of [] \<Rightarrow> False | x # t \<Rightarrow> like_match p t)
      else if c = CHR 0x5C then
        (case p of
           [] \<Rightarrow> False
         | q # p' \<Rightarrow> (case s of [] \<Rightarrow> False | x # t \<Rightarrow> x = q \<and> like_match p' t))
      else
        (case s of [] \<Rightarrow> False | x # t \<Rightarrow> x = c \<and> like_match p t))"

definition sql_like :: "string \<Rightarrow> string \<Rightarrow> bool" where
  "sql_like s pattern = like_match pattern s"

definition owned_by :: "string \<Rightarrow> vivaspot_site \<Rightarrow> bool" where
  "owned_by normalizedEmail v = (normalizedEmail \<in> set (vs_merchant_emails v))"

text \<open>The rows of the first query (strategy 1), before \<open>ORDER BY\<close>.\<close>

definition group_rows :: "vivaspot_site list \<Rightarrow> string \<Rightarrow> string \<Rightarrow> vivaspot_site list" where
  "group_rows sites normalizedEmail normalizedName =
     filter (\<lambda>v. owned_by normalizedEmail v \<and>
                 (case vs_hospitality_group v of
                    None \<Rightarrow> False
                  | Some g \<Rightarrow> sql_like (toLowerCase g) (''%'' @ normalizedName @ ''%'')))
            sites"

text \<open>The condition of the second query (strategy 2).\<close>

definition name_matches :: "string \<Rightarrow> vivaspot_site \<Rightarrow> bool" where
  "name_matches normalizedName v =
     (let rn = toLowerCase (vs_restaurant_name v);
          firstWord = takeWhile (\<lambda>c. c \<noteq> CHR '' '') normalizedName in
      rn = normalizedName
      \<or> sql_like rn (''%'' @ normalizedName @ ''%'')
      \<or> sql_like normalizedName (''%'' @ rn @ ''%'')
      \<or> sql_like rn (''%'' @ firstWord @ ''%''))"

text \<open>The word test of strategy 4.\<close>

definition name_words :: "string \<Rightarrow> string list" where
  "name_words s =
     filter (\<lambda>w. length w > 2) (split_runs (\<lambda>c. is_space c \<or> c = CHR ''-'') s)"

definition matchingWords :: "string \<Rightarrow> vivaspot_site \<Rightarrow> string list" where
  "matchingWords normalizedName site =
     (let siteName = toLowerCase (vs_restaurant_name site);
          nameWords = name_words normalizedName;
          siteWords = name_words siteName in
      filter (\<lambda>word. list_ex (\<lambda>sw. sublist word sw \<or> sublist sw word) siteWords) nameWords)"

text \<open>
  \<open>findVivaSpotMatch\<close> on a snapshot of the table \<open>vivaspot_sites\<close>.  The collation of
  \<open>ORDER BY restaurant_name\<close> belongs to the database; it is the parameter \<open>coll\<close>, a key
  whose order is the order of the names.  Rows of a query without \<open>ORDER BY\<close> come in
  table order.
\<close>

definition findVivaSpotMatch ::
  "(string \<Rightarrow> 'k::linorder) \<Rightarrow> vivaspot_site list \<Rightarrow> string \<Rightarrow> string \<Rightarrow> match_result" where
  "findVivaSpotMatch coll sites email locationName =
     (let normalizedEmail = trim (toLowerCase email);
          normalizedName = trim (toLowerCase locationName);
          groupResult = sort_key (\<lambda>v. coll (vs_restaurant_name v))
                          (group_rows sites normalizedEmail normalizedName)
      in
      case groupResult of
        row1 # row2 # others \<Rightarrow> MatchGroup (vs_hospitality_group row1) groupResult
      | _ \<Rightarrow>
     (case filter (\<lambda>v. owned_by normalizedEmail v \<and> name_matches normalizedName v) sites of
        site # _ \<Rightarrow> MatchSingle site
      | [] \<Rightarrow>
     (case filter (owned_by normalizedEmail) sites of
        [] \<Rightarrow> MatchNone
      | [site] \<Rightarrow> MatchSingle site
      | rows \<Rightarrow>
          (case filter (\<lambda>site. length (matchingWords normalizedName site) \<ge> 1) rows of
             site # _ \<Rightarrow> MatchSingle site
           | [] \<Rightarrow> MatchNone))))"

section \<open>Concrete inputs\<close>

text \<open>
  A small installation, used to run the definitions: three locations (the token of
  the first is good for an hour, the token of the second for two minutes, the third
  is deactivated), one access point each, no contact synced yet; a CRM that answers
  every request; a storage layer that answers every query.
\<close>

definition example_system :: system where
  "example_system =
     \<lparr>ghl_connections =
        [\<lparr>gc_ghl_location_id = ''loc1'', gc_access_token = ''access-1'',
          gc_refresh_token = ''refresh-1'', gc_token_expires_at = 3600000, gc_is_active = True\<rparr>,
         \<lparr>gc_ghl_location_id = ''loc2'', gc_access_token = ''access-2'',
          gc_refresh_token = ''refresh-2'', gc_token_expires_at = 120000, gc_is_active = True\<rparr>,
         \<lparr>gc_ghl_location_id = ''loc3'', gc_access_token = ''access-3'',
          gc_refresh_token = ''refresh-3'', gc_token_expires_at = 3600000, gc_is_active = False\<rparr>],
      location_mappings =
        [\<lparr>lm_ghl_location_id = ''loc1'', lm_vivaspot_mac = ''00:18:0A:27:29:76'',
          lm_vivaspot_location = ''Bar''\<rparr>,
         \<lparr>lm_ghl_location_id = ''loc2'', lm_vivaspot_mac = ''00:18:0A:36:1A:F8'',
          lm_vivaspot_location = ''Cafe''\<rparr>,
         \<lparr>lm_ghl_location_id = ''loc3'', lm_vivaspot_mac = ''00:18:0A:00:00:03'',
          lm_vivaspot_location = ''Club''\<rparr>],
      synced_contacts = [],
      sync_log = [],
      crm_calls = []\<rparr>"

definition example_env :: env where
  "example_env =
     \<lparr>now_check = 0, now_persist = 7,
      refresh_reply = Ok \<lparr>tr_accessToken = ''access-new'', tr_refreshToken = ''refresh-new'',
                          tr_expiresIn = 86400\<rparr>,
      create_reply = Ok (Some (Some ''contact-1'')),
      db_fault = (\<lambda>site. None)\<rparr>"

definition example_contact :: contact where
  "example_contact =
     \<lparr>c_mac = Some ''00-18-0a-27-29-76'', c_email = Some ''Guest@X.com'',
      c_name = Some ''John  Doe Jr'', c_phone = None, c_opt_in = JBool True\<rparr>"

text \<open>The rows that \<open>getLocationByMAC\<close> finds for the first and for the second access point.\<close>

definition example_row_fresh :: mapping_row where
  "example_row_fresh =
     \<lparr>ghl_location_id = ''loc1'', vivaspot_mac = ''00:18:0A:27:29:76'', vivaspot_location = ''Bar'',
      access_token = ''access-1'', refresh_token = ''refresh-1'', token_expires_at = 3600000\<rparr>"

definition example_row_expiring :: mapping_row where
  "example_row_expiring =
     \<lparr>ghl_location_id = ''loc2'', vivaspot_mac = ''00:18:0A:36:1A:F8'', vivaspot_location = ''Cafe'',
      access_token = ''access-2'', refresh_token = ''refresh-2'', token_expires_at = 120000\<rparr>"

text \<open>An environment whose storage layer throws at the mapping lookup.\<close>

definition example_env_lookup_down :: env where
  "example_env_lookup_down =
     example_env\<lparr>db_fault :=
       (\<lambda>site. if site = AtGetLocationByMAC then Some ''Connection terminated unexpectedly''
                else None)\<rparr>"

text \<open>An environment whose storage layer throws at the idempotence check.\<close>

definition example_env_check_down :: env where
  "example_env_check_down =
     example_env\<lparr>db_fault :=
       (\<lambda>site. if site = AtIsContactSynced then Some ''Connection terminated unexpectedly''
                else None)\<rparr>"

text \<open>An environment whose CRM rejects the contact and whose ledger cannot be written.\<close>

definition example_env_ledger_down :: env where
  "example_env_ledger_down =
     example_env\<lparr>create_reply := NotOk 422 ''invalid email'',
                  db_fault := (\<lambda>site. if site = AtLogSyncError then Some ''disk full'' else None)\<rparr>"

text \<open>An environment whose CRM rejects the contact and whose marker table cannot be written.\<close>

definition example_env_crm_rejects :: env where
  "example_env_crm_rejects =
     example_env\<lparr>create_reply := NotOk 422 ''invalid email'',
                  db_fault := (\<lambda>site. if site = AtRecordSyncedContact then Some ''deadlock detected''
                                       else None)\<rparr>"

text \<open>
  Two environments whose CRM creates the contact while one write of the storage layer
  fails afterwards: the success entry of the ledger, or the marker.
\<close>

definition example_env_success_entry_down :: env where
  "example_env_success_entry_down =
     example_env\<lparr>db_fault := (\<lambda>site. if site = AtLogSyncSuccess then Some ''disk full'' else None)\<rparr>"

definition example_env_marker_down :: env where
  "example_env_marker_down =
     example_env\<lparr>db_fault := (\<lambda>site. if site = AtRecordSyncedContact then Some ''deadlock detected''
                                       else None)\<rparr>"

text \<open>The state after the example contact has been synced once.\<close>

definition example_system_synced :: system where
  "example_system_synced = snd (processContact example_env example_system example_contact)"

text \<open>
  Venue directories.  \<open>byte_order\<close> is the collation that compares names character code
  by character code.
\<close>

definition byte_order :: "string \<Rightarrow> nat list" where
  "byte_order name = map of_char name"

definition venue :: "nat \<Rightarrow> string \<Rightarrow> string \<Rightarrow> string \<Rightarrow> vivaspot_site" where
  "venue n name grp owner =
     \<lparr>vs_id = n, vs_restaurant_name = name, vs_hospitality_group = Some grp, vs_address = None,
      vs_merchant_emails = [owner], vs_mac_addresses = []\<rparr>"

definition acme_directory :: "vivaspot_site list" where
  "acme_directory =
     [venue 1 ''Acme Cafe'' ''Acme Group'' ''a@x.com'',
      venue 2 ''Acme Bistro'' ''Acme Group'' ''a@x.com'',
      venue 3 ''Joe's Diner'' ''Diners United'' ''b@y.com'']"

definition mixed_case_directory :: "vivaspot_site list" where
  "mixed_case_directory =
     [venue 1 ''Acme Cafe'' ''Acme Group'' ''A@x.com'',
      venue 2 ''Acme Bistro'' ''Acme Group'' ''A@x.com'']"

definition wildcard_directory :: "vivaspot_site list" where
  "wildcard_directory =
     [venue 1 ''North'' ''a_me holdings'' ''a@x.com'',
      venue 2 ''South'' ''acme holdings'' ''a@x.com'']"

definition spaced_directory :: "vivaspot_site list" where
  "spaced_directory =
     [venue 1 ''North'' ''acme one'' ''a@x.com'',
      venue 2 ''South'' ''acme'' ''a@x.com'']"

section \<open>Properties of the identity normalizer\<close>

text \<open>Facts that let the simplifier evaluate the string functions on literals.\<close>

lemmas string_eval =
  toLowerCase_def toLowerCase_char_def toUpperCase_def toUpperCase_char_def
  trim_def is_space_def replace_hyphens_def char_of_def bit_Suc_0_iff

lemma lower_hex_not_separator: "is_lower_hex c \<Longrightarrow> \<not> is_mac_separator c"
  by (auto simp: is_lower_hex_def is_mac_separator_def is_space_def)

lemma lower_hex_toLowerCase: "is_lower_hex c \<Longrightarrow> toLowerCase_char c = c"
  by (auto simp: is_lower_hex_def toLowerCase_char_def)

lemma colon_is_separator: "is_mac_separator CHR '':''"
  by (simp add: is_mac_separator_def)

lemma length_twelve:
  assumes "length (xs :: 'a list) = 12"
  obtains a b c d e f g h i j k l where "xs = [a, b, c, d, e, f, g, h, i, j, k, l]"
proof -
  from assms have "length xs = Suc (Suc (Suc (Suc (Suc (Suc (Suc (Suc (Suc (Suc (Suc (Suc 0)))))))))))"
    by simp
  then show thesis
    using that by (auto simp: length_Suc_conv)
qed

lemma canonical_is_fixed:
  assumes len: "length cleaned = 12" and hex: "list_all is_lower_hex cleaned"
  shows "normalizeMacAddress (join '':'' (match_pairs cleaned)) = Some (join '':'' (match_pairs cleaned))"
proof -
  from len obtain a b c d e f g h i j k l where
    cl: "cleaned = [a, b, c, d, e, f, g, h, i, j, k, l]"
    by (rule length_twelve)
  from hex have each:
    "is_lower_hex a" "is_lower_hex b" "is_lower_hex c" "is_lower_hex d"
    "is_lower_hex e" "is_lower_hex f" "is_lower_hex g" "is_lower_hex h"
    "is_lower_hex i" "is_lower_hex j" "is_lower_hex k" "is_lower_hex l"
    by (simp_all add: cl)
  show ?thesis
    using each
    by (simp add: cl normalizeMacAddress_def toLowerCase_def lower_hex_not_separator
        lower_hex_toLowerCase colon_is_separator)
qed

text \<open>
  Claim C8.  Every raw string that \<open>normalizeMacAddress\<close> accepts is mapped to a string
  that the normalizer maps to itself: normalizing twice gives the same result as
  normalizing once, so the canonical lower-case colon-separated form is a fixed point.
\<close>

theorem normalizeMacAddress_idempotent:
  "normalizeMacAddress raw = Some canon \<Longrightarrow> normalizeMacAddress canon = Some canon"
proof -
  assume acc: "normalizeMacAddress raw = Some canon"
  define cleaned where "cleaned = toLowerCase (filter (\<lambda>c. \<not> is_mac_separator c) raw)"
  from acc have ok: "length cleaned = 12 \<and> list_all is_lower_hex cleaned"
    and canon: "canon = join '':'' (match_pairs cleaned)"
    by (auto simp: normalizeMacAddress_def cleaned_def Let_def split: if_splits)
  from ok show ?thesis
    unfolding canon by (simp add: canonical_is_fixed)
qed

theorem normalizeMacAddress_idempotent_witness:
  "normalizeMacAddress ''00-18-0A-27-29-76'' = Some ''00:18:0a:27:29:76''
   \<and> normalizeMacAddress ''00:18:0a:27:29:76'' = Some ''00:18:0a:27:29:76''"
proof -
  have first: "normalizeMacAddress ''00-18-0A-27-29-76'' = Some ''00:18:0a:27:29:76''"
    by (simp add: normalizeMacAddress_def is_mac_separator_def is_lower_hex_def string_eval)
  from first normalizeMacAddress_idempotent [OF first] show ?thesis
    by simp
qed

section \<open>Properties of the sync pipeline\<close>

lemmas pipeline_eval =
  processContact_def try_sync_def getLocationByMAC_def location_rows_def join_row_def
  normalize_mac_upper_def isContactSynced_def has_marker_def recordSyncedContact_def logSync_def
  ensureValidToken_def refreshAccessToken_def updateGHLTokens_def retoken_def createContact_def
  present_def outcome_def parseName_def split_runs_def Let_def

lemmas example_defs = example_system_def example_env_def example_contact_def

subsection \<open>What each step leaves alone\<close>

lemma ensureValidToken_frame:
  assumes "ensureValidToken e s m = (r, s1)"
  shows "synced_contacts s1 = synced_contacts s \<and> sync_log s1 = sync_log s
         \<and> location_mappings s1 = location_mappings s"
  using assms
  by (auto simp: ensureValidToken_def refreshAccessToken_def updateGHLTokens_def Let_def
      split: if_splits http_result.splits option.splits)

lemma createContact_frame:
  assumes "createContact e s tok loc email fname lname ph src tags = (r, s1)"
  shows "synced_contacts s1 = synced_contacts s \<and> sync_log s1 = sync_log s
         \<and> location_mappings s1 = location_mappings s \<and> ghl_connections s1 = ghl_connections s"
  using assms
  by (auto simp: createContact_def Let_def split: http_result.splits)

lemma recordSyncedContact_frame:
  assumes "recordSyncedContact e s loc email cid = Inr s1"
  shows "sync_log s1 = sync_log s \<and> crm_calls s1 = crm_calls s
         \<and> location_mappings s1 = location_mappings s \<and> ghl_connections s1 = ghl_connections s"
  using assms
  by (auto simp: recordSyncedContact_def split: option.splits if_splits)

text \<open>Markers are only ever added.\<close>

lemma has_marker_append: "has_marker tbl loc k \<Longrightarrow> has_marker (tbl @ more_rows) loc k"
  by (auto simp: has_marker_def list_ex_iff)

lemma recordSyncedContact_markers:
  assumes "recordSyncedContact e s loc email cid = Inr s1"
  shows "has_marker (synced_contacts s1) loc (toLowerCase email)"
    and "has_marker (synced_contacts s) loc' k \<Longrightarrow> has_marker (synced_contacts s1) loc' k"
  using assms
  by (auto simp: recordSyncedContact_def has_marker_def list_ex_iff split: option.splits if_splits)

subsection \<open>The \<open>try\<close> block\<close>

text \<open>
  The \<open>try\<close> block either throws and leaves the ledger and the markers alone, or
  returns \<open>success\<close> after writing the marker and appending one success entry.
\<close>

lemma try_sync_cases:
  assumes run: "try_sync e s m mac email name phone = (r, s1)"
  shows "(\<exists>msg. r = Inl msg \<and> sync_log s1 = sync_log s
            \<and> (\<forall>loc k. has_marker (synced_contacts s) loc k \<longrightarrow> has_marker (synced_contacts s1) loc k))
       \<or> (\<exists>res entry. r = Inr res \<and> status res = ''success''
             \<and> sync_log s1 = sync_log s @ [entry] \<and> sl_status entry = ''success''
             \<and> sl_ghl_location_id entry = ghl_location_id m \<and> sl_contact_email entry = email
             \<and> has_marker (synced_contacts s1) (ghl_location_id m) (toLowerCase email)
             \<and> (\<forall>loc k. has_marker (synced_contacts s) loc k \<longrightarrow> has_marker (synced_contacts s1) loc k))"
proof (cases "ensureValidToken e s m")
  case (Pair t sa)
  note tok = this
  from ensureValidToken_frame [OF tok]
  have fa: "sync_log sa = sync_log s" "synced_contacts sa = synced_contacts s" by simp_all
  show ?thesis
  proof (cases t)
    case (Inl msg)
    with tok run fa show ?thesis by (auto simp: try_sync_def Let_def)
  next
    case (Inr accessToken)
    obtain firstName lastName where pn: "parseName name = (firstName, lastName)"
      by (cases "parseName name")
    obtain cr sb where cc: "createContact e sa accessToken (ghl_location_id m) email firstName lastName
        phone ''VivaSpot WiFi'' [''vivaspot-wifi''] = (cr, sb)"
      by (cases "createContact e sa accessToken (ghl_location_id m) email firstName lastName
        phone ''VivaSpot WiFi'' [''vivaspot-wifi'']")
    from createContact_frame [OF cc] fa
    have fb: "sync_log sb = sync_log s" "synced_contacts sb = synced_contacts s" by simp_all
    show ?thesis
    proof (cases cr)
      case (Inl msg)
      with tok Inr pn cc run fb show ?thesis by (auto simp: try_sync_def Let_def)
    next
      case crr: (Inr data)
      show ?thesis
      proof (cases data)
        case None
        with tok Inr pn cc crr run fb show ?thesis by (auto simp: try_sync_def Let_def)
      next
        case (Some contactId)
        note dat = this
        show ?thesis
        proof (cases "recordSyncedContact e sb (ghl_location_id m) email contactId")
          case (Inl msg)
          with tok Inr pn cc crr dat run fb show ?thesis by (auto simp: try_sync_def Let_def)
        next
          case rec: (Inr sc)
          from recordSyncedContact_frame [OF rec] fb have fc: "sync_log sc = sync_log s" by simp
          from recordSyncedContact_markers [OF rec] fb
          have mk: "has_marker (synced_contacts sc) (ghl_location_id m) (toLowerCase email)"
            and keep: "\<And>loc k. has_marker (synced_contacts s) loc k \<Longrightarrow> has_marker (synced_contacts sc) loc k"
            by simp_all
          show ?thesis
          proof (cases "db_fault e AtLogSyncSuccess")
            case None
            with tok Inr pn cc crr dat rec run fc mk keep show ?thesis
              by (auto simp: try_sync_def logSync_def Let_def)
          next
            case (Some msg)
            with tok Inr pn cc crr dat rec run fc mk keep show ?thesis
              by (auto simp: try_sync_def logSync_def Let_def)
          qed
        qed
      qed
    qed
  qed
qed

subsection \<open>Every way \<open>processContact\<close> can end\<close>

lemma processContact_cases:
  assumes run: "processContact e s c = (r, s')"
  shows "(\<forall>loc k. has_marker (synced_contacts s) loc k \<longrightarrow> has_marker (synced_contacts s') loc k)
    \<and> ((r = Inr (outcome ''error'' ''Missing MAC address'') \<and> s' = s \<and> present (c_mac c) = None)
    \<or> (r = Inr (outcome ''error'' ''Missing email address'') \<and> s' = s \<and> present (c_email c) = None)
    \<or> (r = Inr (outcome ''skipped'' ''Not opted in'') \<and> s' = s)
    \<or> (r = Inr (outcome ''skipped'' ''No GHL mapping for this MAC address'') \<and> s' = s)
    \<or> (r = Inr (outcome ''skipped'' ''Already synced'') \<and> s' = s)
    \<or> (\<exists>msg. r = Inl msg \<and> s' = s
          \<and> (db_fault e AtGetLocationByMAC = Some msg \<or> db_fault e AtIsContactSynced = Some msg))
    \<or> (\<exists>msg. r = Inl msg \<and> db_fault e AtLogSyncError = Some msg \<and> sync_log s' = sync_log s)
    \<or> (present (c_mac c) \<noteq> None \<and> present (c_email c) \<noteq> None
          \<and> (\<exists>msg entry. r = Inr (outcome ''error'' msg) \<and> sync_log s' = sync_log s @ [entry]
                \<and> sl_status entry = ''error'' \<and> sl_error_message entry = Some msg))
    \<or> (present (c_mac c) \<noteq> None \<and> present (c_email c) \<noteq> None
          \<and> (\<exists>res entry. r = Inr res \<and> status res = ''success''
                \<and> sync_log s' = sync_log s @ [entry] \<and> sl_status entry = ''success''
                \<and> has_marker (synced_contacts s') (sl_ghl_location_id entry)
                      (toLowerCase (sl_contact_email entry)))))"
proof (cases "present (c_mac c)")
  case None
  with run show ?thesis by (simp add: processContact_def)
next
  case mac: (Some mac)
  show ?thesis
  proof (cases "present (c_email c)")
    case None
    with run mac show ?thesis by (simp add: processContact_def)
  next
    case email: (Some email)
    show ?thesis
    proof (cases "isOptedIn (c_opt_in c)")
      case False
      with run mac email show ?thesis by (simp add: processContact_def)
    next
      case opted: True
      show ?thesis
      proof (cases "getLocationByMAC e s mac")
        case (Inl msg)
        with run mac email opted show ?thesis
          by (auto simp: processContact_def getLocationByMAC_def split: option.splits list.splits)
      next
        case found: (Inr row)
        show ?thesis
        proof (cases row)
          case None
          with run mac email opted found show ?thesis by (simp add: processContact_def)
        next
          case mapping: (Some m)
          show ?thesis
          proof (cases "isContactSynced e s (ghl_location_id m) email")
            case (Inl msg)
            with run mac email opted found mapping show ?thesis
              by (auto simp: processContact_def isContactSynced_def split: option.splits)
          next
            case synced: (Inr already)
            show ?thesis
            proof (cases already)
              case True
              with run mac email opted found mapping synced show ?thesis
                by (simp add: processContact_def)
            next
              case False
              obtain tr s1 where att: "try_sync e s m mac email (c_name c) (c_phone c) = (tr, s1)"
                by (cases "try_sync e s m mac email (c_name c) (c_phone c)")
              from try_sync_cases [OF att] show ?thesis
              proof
                assume "\<exists>msg. tr = Inl msg \<and> sync_log s1 = sync_log s
                  \<and> (\<forall>loc k. has_marker (synced_contacts s) loc k \<longrightarrow> has_marker (synced_contacts s1) loc k)"
                then obtain msg where thrown: "tr = Inl msg" and same: "sync_log s1 = sync_log s"
                  and keep: "\<And>loc k. has_marker (synced_contacts s) loc k \<Longrightarrow> has_marker (synced_contacts s1) loc k"
                  by blast
                show ?thesis
                proof (cases "db_fault e AtLogSyncError")
                  case None
                  with run mac email opted found mapping synced False att thrown same keep show ?thesis
                    by (auto simp: processContact_def logSync_def)
                next
                  case (Some msg')
                  with run mac email opted found mapping synced False att thrown same keep show ?thesis
                    by (auto simp: processContact_def logSync_def)
                qed
              next
                assume "\<exists>res entry. tr = Inr res \<and> status res = ''success''
                  \<and> sync_log s1 = sync_log s @ [entry] \<and> sl_status entry = ''success''
                  \<and> sl_ghl_location_id entry = ghl_location_id m \<and> sl_contact_email entry = email
                  \<and> has_marker (synced_contacts s1) (ghl_location_id m) (toLowerCase email)
                  \<and> (\<forall>loc k. has_marker (synced_contacts s) loc k \<longrightarrow> has_marker (synced_contacts s1) loc k)"
                with run mac email opted found mapping synced False att show ?thesis
                  by (auto simp: processContact_def)
              qed
            qed
          qed
        qed
      qed
    qed
  qed
qed

subsection \<open>Opt-in\<close>

lemma not_opted_in_skipped:
  assumes "present (c_mac c) \<noteq> None" and "present (c_email c) \<noteq> None"
    and "\<not> isOptedIn (c_opt_in c)"
  shows "processContact e s c = (Inr (outcome ''skipped'' ''Not opted in''), s)"
  using assms by (auto simp: processContact_def split: option.splits)

text \<open>
  Claim C3.  The opt-in check accepts exactly: the boolean \<open>true\<close>; a string that is
  \<open>yes\<close>, \<open>true\<close> or \<open>1\<close> up to letter case; a non-empty array; an object with at least one
  truthy value.  Every other value (\<open>false\<close>, other strings, \<open>null\<close>, \<open>undefined\<close>, the
  empty array, an object without a truthy value, a number) is not an opt-in, and an
  event with MAC and email whose opt-in is not accepted ends as \<open>skipped\<close> with the
  reason \<open>Not opted in\<close>, the state unchanged.
\<close>

theorem isOptedIn_classification:
  "(isOptedIn v \<longleftrightarrow>
      (v = JBool True
       \<or> (\<exists>t. v = JStr t \<and> (toLowerCase t = ''yes'' \<or> toLowerCase t = ''true'' \<or> toLowerCase t = ''1''))
       \<or> (\<exists>xs. v = JArr xs \<and> xs \<noteq> [])
       \<or> (\<exists>kvs. v = JObj kvs \<and> (\<exists>kv \<in> set kvs. truthy (snd kv)))))
   \<and> (present (c_mac c) \<noteq> None \<and> present (c_email c) \<noteq> None \<and> \<not> isOptedIn (c_opt_in c)
        \<longrightarrow> processContact e s c = (Inr (outcome ''skipped'' ''Not opted in''), s))"
proof
  show "isOptedIn v \<longleftrightarrow>
      (v = JBool True
       \<or> (\<exists>t. v = JStr t \<and> (toLowerCase t = ''yes'' \<or> toLowerCase t = ''true'' \<or> toLowerCase t = ''1''))
       \<or> (\<exists>xs. v = JArr xs \<and> xs \<noteq> [])
       \<or> (\<exists>kvs. v = JObj kvs \<and> (\<exists>kv \<in> set kvs. truthy (snd kv))))"
    by (cases v) (auto simp: list_ex_iff)
  show "present (c_mac c) \<noteq> None \<and> present (c_email c) \<noteq> None \<and> \<not> isOptedIn (c_opt_in c)
        \<longrightarrow> processContact e s c = (Inr (outcome ''skipped'' ''Not opted in''), s)"
    by (simp add: not_opted_in_skipped)
qed

theorem isOptedIn_classification_witness:
  "isOptedIn (JBool True) \<and> isOptedIn (JStr ''yes'') \<and> isOptedIn (JStr ''Yes'')
   \<and> isOptedIn (JStr ''1'') \<and> isOptedIn (JArr [JStr ''x'']) \<and> isOptedIn (JObj [(''a'', JBool True)])
   \<and> \<not> isOptedIn (JBool False) \<and> \<not> isOptedIn (JStr ''no'') \<and> \<not> isOptedIn JNull
   \<and> \<not> isOptedIn JUndefined \<and> \<not> isOptedIn (JArr []) \<and> \<not> isOptedIn (JObj [(''a'', JBool False)])
   \<and> \<not> isOptedIn (JNum 1)
   \<and> processContact example_env example_system (example_contact\<lparr>c_opt_in := JStr ''no''\<rparr>)
       = (Inr (outcome ''skipped'' ''Not opted in''), example_system)"
proof -
  have classified: "isOptedIn (JBool True) \<and> isOptedIn (JStr ''yes'') \<and> isOptedIn (JStr ''Yes'')
   \<and> isOptedIn (JStr ''1'') \<and> isOptedIn (JArr [JStr ''x'']) \<and> isOptedIn (JObj [(''a'', JBool True)])
   \<and> \<not> isOptedIn (JBool False) \<and> \<not> isOptedIn (JStr ''no'') \<and> \<not> isOptedIn JNull
   \<and> \<not> isOptedIn JUndefined \<and> \<not> isOptedIn (JArr []) \<and> \<not> isOptedIn (JObj [(''a'', JBool False)])
   \<and> \<not> isOptedIn (JNum 1)"
    by (simp add: string_eval)
  have event: "present (c_mac (example_contact\<lparr>c_opt_in := JStr ''no''\<rparr>)) \<noteq> None
     \<and> present (c_email (example_contact\<lparr>c_opt_in := JStr ''no''\<rparr>)) \<noteq> None
     \<and> \<not> isOptedIn (c_opt_in (example_contact\<lparr>c_opt_in := JStr ''no''\<rparr>))"
    by (simp add: example_contact_def present_def string_eval)
  from isOptedIn_classification [of "JStr ''no''" "example_contact\<lparr>c_opt_in := JStr ''no''\<rparr>"
      example_env example_system] event classified
  show ?thesis by blast
qed

subsection \<open>Credential lifecycle\<close>

lemma updateGHLTokens_connections:
  "updateGHLTokens e s loc a r x = Inr s' \<Longrightarrow>
     ghl_connections s' = map (retoken loc a r (now_persist e + x * 1000)) (ghl_connections s)"
  by (auto simp: updateGHLTokens_def Let_def split: option.splits)

lemma filter_retoken_same:
  "filter (\<lambda>gc. gc_ghl_location_id gc = loc \<and> gc_is_active gc) (map (retoken loc a r t) cs)
     = map (retoken loc a r t) (filter (\<lambda>gc. gc_ghl_location_id gc = loc \<and> gc_is_active gc) cs)"
  by (induction cs) (auto simp: retoken_def)

lemma filter_retoken_other:
  "loc' \<noteq> loc \<Longrightarrow>
   filter (\<lambda>gc. gc_ghl_location_id gc = loc' \<and> gc_is_active gc) (map (retoken loc a r t) cs)
     = filter (\<lambda>gc. gc_ghl_location_id gc = loc' \<and> gc_is_active gc) cs"
  by (induction cs) (auto simp: retoken_def)

text \<open>After the update, the active connection of the location carries the new tokens.\<close>

lemma getGHLConnection_after_update:
  assumes "updateGHLTokens e s loc a r x = Inr s'"
  shows "getGHLConnection s' loc =
           map_option (\<lambda>gc. gc\<lparr>gc_access_token := a, gc_refresh_token := r,
                                gc_token_expires_at := now_persist e + x * 1000\<rparr>)
                      (getGHLConnection s loc)"
proof -
  have same: "getGHLConnection s' loc =
      (case map (retoken loc a r (now_persist e + x * 1000))
              (filter (\<lambda>gc. gc_ghl_location_id gc = loc \<and> gc_is_active gc) (ghl_connections s)) of
         [] \<Rightarrow> None | gc # _ \<Rightarrow> Some gc)"
    unfolding getGHLConnection_def
    by (simp only: updateGHLTokens_connections [OF assms] filter_retoken_same)
  have before: "getGHLConnection s loc =
      (case filter (\<lambda>gc. gc_ghl_location_id gc = loc \<and> gc_is_active gc) (ghl_connections s) of
         [] \<Rightarrow> None | gc # _ \<Rightarrow> Some gc)"
    by (simp add: getGHLConnection_def)
  show ?thesis
    unfolding same before
    by (cases "filter (\<lambda>gc. gc_ghl_location_id gc = loc \<and> gc_is_active gc) (ghl_connections s)")
       (auto simp: retoken_def dest: filter_eq_ConsD)
qed

lemma getGHLConnection_other_after_update:
  assumes "updateGHLTokens e s loc a r x = Inr s'" and "loc' \<noteq> loc"
  shows "getGHLConnection s' loc' = getGHLConnection s loc'"
  unfolding getGHLConnection_def
  by (simp only: updateGHLTokens_connections [OF assms(1)] filter_retoken_other [OF assms(2)])

lemma ensureValidToken_fresh:
  "now_check e + 5 * 60 * 1000 < token_expires_at conn \<Longrightarrow>
     ensureValidToken e s conn = (Inr (access_token conn), s)"
  by (simp add: ensureValidToken_def)

lemma ensureValidToken_one_refresh:
  "\<not> now_check e + 5 * 60 * 1000 < token_expires_at conn \<Longrightarrow>
     crm_calls (snd (ensureValidToken e s conn)) = crm_calls s @ [RefreshCall (refresh_token conn)]"
  by (auto simp: ensureValidToken_def refreshAccessToken_def updateGHLTokens_def Let_def
      split: http_result.splits option.splits)

lemma ensureValidToken_refreshed:
  assumes "\<not> now_check e + 5 * 60 * 1000 < token_expires_at conn"
    and "refresh_reply e = Ok nt" and "db_fault e AtUpdateGHLTokens = None"
  shows "fst (ensureValidToken e s conn) = Inr (tr_accessToken nt)"
    and "updateGHLTokens e (s\<lparr>crm_calls := crm_calls s @ [RefreshCall (refresh_token conn)]\<rparr>)
           (ghl_location_id conn) (tr_accessToken nt) (tr_refreshToken nt) (tr_expiresIn nt)
         = Inr (snd (ensureValidToken e s conn))"
  using assms
  by (auto simp: ensureValidToken_def refreshAccessToken_def updateGHLTokens_def Let_def)

text \<open>
  Claim C4.  When \<open>token_expires_at\<close> is more than five minutes after the current time,
  \<open>ensureValidToken\<close> returns the stored access token and changes nothing: no request
  is sent, no table is written.  Otherwise it sends exactly one refresh request, with
  the stored refresh token; when the CRM answers with new tokens and the store takes
  the update, it returns the new access token, the rows of the location in
  \<open>ghl_connections\<close> carry the new access token, the new refresh token and the expiry
  computed from \<open>expires_in\<close> (so a later read of the connection returns them), the
  connections of other locations read as before, and no other table is written.
\<close>

theorem ensureValidToken_contract:
  "(now_check e + 5 * 60 * 1000 < token_expires_at conn \<longrightarrow>
      ensureValidToken e s conn = (Inr (access_token conn), s))
   \<and> (\<not> now_check e + 5 * 60 * 1000 < token_expires_at conn \<longrightarrow>
      crm_calls (snd (ensureValidToken e s conn)) = crm_calls s @ [RefreshCall (refresh_token conn)]
      \<and> (refresh_reply e = Ok nt \<and> db_fault e AtUpdateGHLTokens = None \<longrightarrow>
           fst (ensureValidToken e s conn) = Inr (tr_accessToken nt)
           \<and> ghl_connections (snd (ensureValidToken e s conn))
               = map (retoken (ghl_location_id conn) (tr_accessToken nt) (tr_refreshToken nt)
                        (now_persist e + tr_expiresIn nt * 1000)) (ghl_connections s)
           \<and> getGHLConnection (snd (ensureValidToken e s conn)) (ghl_location_id conn)
               = map_option (\<lambda>gc. gc\<lparr>gc_access_token := tr_accessToken nt,
                                       gc_refresh_token := tr_refreshToken nt,
                                       gc_token_expires_at := now_persist e + tr_expiresIn nt * 1000\<rparr>)
                   (getGHLConnection s (ghl_location_id conn))
           \<and> (\<forall>loc'. loc' \<noteq> ghl_location_id conn \<longrightarrow>
                 getGHLConnection (snd (ensureValidToken e s conn)) loc' = getGHLConnection s loc')
           \<and> location_mappings (snd (ensureValidToken e s conn)) = location_mappings s
           \<and> synced_contacts (snd (ensureValidToken e s conn)) = synced_contacts s
           \<and> sync_log (snd (ensureValidToken e s conn)) = sync_log s))"
proof (intro conjI impI)
  assume "now_check e + 5 * 60 * 1000 < token_expires_at conn"
  then show "ensureValidToken e s conn = (Inr (access_token conn), s)"
    by (rule ensureValidToken_fresh)
next
  assume stale: "\<not> now_check e + 5 * 60 * 1000 < token_expires_at conn"
  then show "crm_calls (snd (ensureValidToken e s conn))
      = crm_calls s @ [RefreshCall (refresh_token conn)]"
    by (rule ensureValidToken_one_refresh)
  assume "refresh_reply e = Ok nt \<and> db_fault e AtUpdateGHLTokens = None"
  then have ok: "refresh_reply e = Ok nt" and up: "db_fault e AtUpdateGHLTokens = None"
    by simp_all
  note upd = ensureValidToken_refreshed(2) [OF stale ok up, of s]
  show "fst (ensureValidToken e s conn) = Inr (tr_accessToken nt)"
    by (rule ensureValidToken_refreshed(1) [OF stale ok up])
  show "ghl_connections (snd (ensureValidToken e s conn))
      = map (retoken (ghl_location_id conn) (tr_accessToken nt) (tr_refreshToken nt)
               (now_persist e + tr_expiresIn nt * 1000)) (ghl_connections s)"
    using updateGHLTokens_connections [OF upd] by simp
  show "getGHLConnection (snd (ensureValidToken e s conn)) (ghl_location_id conn)
      = map_option (\<lambda>gc. gc\<lparr>gc_access_token := tr_accessToken nt,
                              gc_refresh_token := tr_refreshToken nt,
                              gc_token_expires_at := now_persist e + tr_expiresIn nt * 1000\<rparr>)
          (getGHLConnection s (ghl_location_id conn))"
    using getGHLConnection_after_update [OF upd] by (simp add: getGHLConnection_def)
  show "\<forall>loc'. loc' \<noteq> ghl_location_id conn \<longrightarrow>
      getGHLConnection (snd (ensureValidToken e s conn)) loc' = getGHLConnection s loc'"
    using getGHLConnection_other_after_update [OF upd] by (simp add: getGHLConnection_def)
  have frame: "synced_contacts (snd (ensureValidToken e s conn)) = synced_contacts s
      \<and> sync_log (snd (ensureValidToken e s conn)) = sync_log s
      \<and> location_mappings (snd (ensureValidToken e s conn)) = location_mappings s"
    by (rule ensureValidToken_frame [of e s conn "fst (ensureValidToken e s conn)"]) simp
  from frame show "location_mappings (snd (ensureValidToken e s conn)) = location_mappings s"
    by simp
  from frame show "synced_contacts (snd (ensureValidToken e s conn)) = synced_contacts s"
    by simp
  from frame show "sync_log (snd (ensureValidToken e s conn)) = sync_log s"
    by simp
qed

theorem ensureValidToken_contract_witness:
  "ensureValidToken example_env example_system example_row_fresh = (Inr ''access-1'', example_system)
   \<and> fst (ensureValidToken example_env example_system example_row_expiring) = Inr ''access-new''
   \<and> crm_calls (snd (ensureValidToken example_env example_system example_row_expiring))
       = [RefreshCall ''refresh-2'']
   \<and> getGHLConnection (snd (ensureValidToken example_env example_system example_row_expiring)) ''loc2''
       = Some \<lparr>gc_ghl_location_id = ''loc2'', gc_access_token = ''access-new'',
               gc_refresh_token = ''refresh-new'', gc_token_expires_at = 86400007,
               gc_is_active = True\<rparr>"
proof -
  let ?nt = "\<lparr>tr_accessToken = ''access-new'', tr_refreshToken = ''refresh-new'',
              tr_expiresIn = 86400\<rparr>"
  have fresh: "now_check example_env + 5 * 60 * 1000 < token_expires_at example_row_fresh"
    by (simp add: example_env_def example_row_fresh_def)
  have stale: "\<not> now_check example_env + 5 * 60 * 1000 < token_expires_at example_row_expiring"
    by (simp add: example_env_def example_row_expiring_def)
  have reply: "refresh_reply example_env = Ok ?nt \<and> db_fault example_env AtUpdateGHLTokens = None"
    by (simp add: example_env_def)
  have before: "getGHLConnection example_system (ghl_location_id example_row_expiring)
      = Some \<lparr>gc_ghl_location_id = ''loc2'', gc_access_token = ''access-2'',
               gc_refresh_token = ''refresh-2'', gc_token_expires_at = 120000, gc_is_active = True\<rparr>"
    by (simp add: getGHLConnection_def example_system_def example_row_expiring_def)
  from ensureValidToken_contract
         [where e = example_env and s = example_system and conn = example_row_fresh and nt = ?nt]
       fresh
  have one: "ensureValidToken example_env example_system example_row_fresh
      = (Inr ''access-1'', example_system)"
    by (simp add: example_row_fresh_def)
  from ensureValidToken_contract
         [where e = example_env and s = example_system and conn = example_row_expiring and nt = ?nt]
       stale reply before
  have two: "fst (ensureValidToken example_env example_system example_row_expiring) = Inr ''access-new''
   \<and> crm_calls (snd (ensureValidToken example_env example_system example_row_expiring))
       = [RefreshCall ''refresh-2'']
   \<and> getGHLConnection (snd (ensureValidToken example_env example_system example_row_expiring)) ''loc2''
       = Some \<lparr>gc_ghl_location_id = ''loc2'', gc_access_token = ''access-new'',
               gc_refresh_token = ''refresh-new'', gc_token_expires_at = 86400007,
               gc_is_active = True\<rparr>"
    by (simp add: example_row_expiring_def example_system_def example_env_def)
  from one two show ?thesis by simp
qed

subsection \<open>Ledger entries\<close>

text \<open>
  Claim C2 says that every terminal outcome except the validation failure and the
  unmapped device appends one ledger entry, in particular the opt-in skip, the
  inactive connection and the already-synced skip.  The pipeline writes the ledger
  only after the CRM attempt: an event that is not opted in, an event of a
  deactivated location (the lookup joins active connections only, so it ends as
  \<open>No GHL mapping for this MAC address\<close>) and an event that was synced before each end
  with the ledger as it was.
\<close>

theorem ledger_every_outcome_counterexample:
  "fst (processContact example_env example_system (example_contact\<lparr>c_opt_in := JStr ''no''\<rparr>))
     = Inr (outcome ''skipped'' ''Not opted in'')
   \<and> length (sync_log (snd (processContact example_env example_system
                              (example_contact\<lparr>c_opt_in := JStr ''no''\<rparr>))))
       \<noteq> length (sync_log example_system) + 1
   \<and> fst (processContact example_env example_system
             (example_contact\<lparr>c_mac := Some ''00:18:0a:00:00:03''\<rparr>))
       = Inr (outcome ''skipped'' ''No GHL mapping for this MAC address'')
   \<and> length (sync_log (snd (processContact example_env example_system
                              (example_contact\<lparr>c_mac := Some ''00:18:0a:00:00:03''\<rparr>))))
       \<noteq> length (sync_log example_system) + 1
   \<and> fst (processContact example_env example_system_synced example_contact)
       = Inr (outcome ''skipped'' ''Already synced'')
   \<and> length (sync_log (snd (processContact example_env example_system_synced example_contact)))
       \<noteq> length (sync_log example_system_synced) + 1"
  by (simp add: example_system_synced_def example_defs pipeline_eval string_eval)

text \<open>
  Claim C2, amended.  Whenever \<open>processContact\<close> returns a result: a \<open>success\<close> appends
  exactly one ledger entry, with status \<open>success\<close>; an \<open>error\<close> of an event that has MAC
  and email (an error caught after the idempotence check: token refresh, CRM call,
  marker or ledger write) appends exactly one entry, with status \<open>error\<close> and the
  message of the result; an \<open>error\<close> of an event without MAC or without email appends
  none; every \<open>skipped\<close> outcome (not opted in, no mapping of an active location,
  already synced) appends none.
\<close>

theorem ledger_entry_by_outcome:
  assumes "processContact e s c = (Inr r, s')"
  shows "(status r = ''success'' \<longrightarrow>
            (\<exists>entry. sync_log s' = sync_log s @ [entry] \<and> sl_status entry = ''success''))
       \<and> (status r = ''error'' \<and> present (c_mac c) \<noteq> None \<and> present (c_email c) \<noteq> None \<longrightarrow>
            (\<exists>entry. sync_log s' = sync_log s @ [entry] \<and> sl_status entry = ''error''
                       \<and> sl_error_message entry = reason r))
       \<and> (status r = ''error'' \<and> (present (c_mac c) = None \<or> present (c_email c) = None) \<longrightarrow>
            sync_log s' = sync_log s)
       \<and> (status r = ''skipped'' \<longrightarrow> sync_log s' = sync_log s)"
  using processContact_cases [OF assms]
  by (elim conjE disjE exE) (auto simp: outcome_def)

theorem ledger_entry_by_outcome_witness:
  "sync_log (snd (processContact example_env_crm_rejects example_system example_contact))
     = sync_log example_system @
       [\<lparr>sl_ghl_location_id = ''loc1'', sl_vivaspot_mac = ''00-18-0a-27-29-76'',
         sl_contact_email = ''Guest@X.com'', sl_status = ''error'', sl_ghl_contact_id = None,
         sl_error_message = Some ''Create contact failed: 422 - invalid email''\<rparr>]"
proof -
  let ?r = "outcome ''error'' ''Create contact failed: 422 - invalid email''"
  have run: "processContact example_env_crm_rejects example_system example_contact
      = (Inr ?r, snd (processContact example_env_crm_rejects example_system example_contact))"
    by (simp add: example_env_crm_rejects_def example_defs pipeline_eval string_eval show_nat.simps)
  have event: "status ?r = ''error'' \<and> present (c_mac example_contact) \<noteq> None
      \<and> present (c_email example_contact) \<noteq> None"
    by (simp add: outcome_def example_contact_def present_def)
  from ledger_entry_by_outcome [OF run] event
  obtain entry where
    "sync_log (snd (processContact example_env_crm_rejects example_system example_contact))
       = sync_log example_system @ [entry]"
    by blast
  then show ?thesis
    by (simp add: example_env_crm_rejects_def example_defs pipeline_eval string_eval show_nat.simps)
qed

subsection \<open>Failures\<close>

text \<open>
  Claim C6 says that no failure leaves \<open>processContact\<close> as an exception.  The mapping
  lookup and the idempotence check run before the \<open>try\<close> block, and the \<open>catch\<close>
  handler writes the ledger itself: when the storage layer throws at the mapping
  lookup, at the idempotence check, or at the ledger write of the handler, the
  exception leaves \<open>processContact\<close>.
\<close>

theorem processContact_never_throws_counterexample:
  "processContact example_env_lookup_down example_system example_contact
     = (Inl ''Connection terminated unexpectedly'', example_system)
   \<and> processContact example_env_check_down example_system example_contact
     = (Inl ''Connection terminated unexpectedly'', example_system)
   \<and> fst (processContact example_env_ledger_down example_system example_contact)
     = Inl ''disk full''"
  by (simp add: example_env_lookup_down_def example_env_check_down_def example_env_ledger_down_def
      example_defs pipeline_eval string_eval)

text \<open>
  Claim C6, amended.  When the storage layer answers the mapping lookup, the
  idempotence check and the ledger write of the \<open>catch\<close> handler, \<open>processContact\<close>
  returns a result object whose status is \<open>success\<close>, \<open>skipped\<close> or \<open>error\<close>, whatever
  else fails: the token refresh, the CRM call, the marker write and the ledger write
  of the \<open>try\<close> block.
\<close>

theorem processContact_structured_result:
  assumes "db_fault e AtGetLocationByMAC = None" and "db_fault e AtIsContactSynced = None"
    and "db_fault e AtLogSyncError = None"
  shows "\<exists>r. fst (processContact e s c) = Inr r
           \<and> (status r = ''success'' \<or> status r = ''skipped'' \<or> status r = ''error'')"
proof -
  obtain res s' where run: "processContact e s c = (res, s')"
    by (cases "processContact e s c")
  from processContact_cases [OF run] assms have "\<exists>r. res = Inr r
      \<and> (status r = ''success'' \<or> status r = ''skipped'' \<or> status r = ''error'')"
    by (elim conjE disjE exE) (auto simp: outcome_def)
  with run show ?thesis by simp
qed

theorem processContact_structured_result_witness:
  "fst (processContact example_env_crm_rejects example_system example_contact)
     = Inr (outcome ''error'' ''Create contact failed: 422 - invalid email'')"
proof -
  have answers: "db_fault example_env_crm_rejects AtGetLocationByMAC = None"
    "db_fault example_env_crm_rejects AtIsContactSynced = None"
    "db_fault example_env_crm_rejects AtLogSyncError = None"
    by (simp_all add: example_env_crm_rejects_def example_env_def)
  from processContact_structured_result [OF answers, of example_system example_contact]
  obtain r where "fst (processContact example_env_crm_rejects example_system example_contact) = Inr r"
    by blast
  then show ?thesis
    by (simp add: example_env_crm_rejects_def example_defs pipeline_eval string_eval show_nat.simps)
qed

subsection \<open>Idempotence\<close>

lemma no_marker_filter:
  "\<not> has_marker tbl loc k \<Longrightarrow>
     filter (\<lambda>sc. sc_ghl_location_id sc = loc \<and> sc_contact_email sc = k) tbl = []"
  by (auto simp: has_marker_def list_ex_iff filter_empty_conv)

lemma no_marker_no_success:
  assumes "ledger_backed s" and "\<not> has_marker (synced_contacts s) loc (toLowerCase email)"
  shows "filter (\<lambda>l. sl_ghl_location_id l = loc \<and> toLowerCase (sl_contact_email l) = toLowerCase email
                     \<and> sl_status l = ''success'') (sync_log s) = []"
  using assms by (auto simp: ledger_backed_def list_all_iff filter_empty_conv)

lemma processContact_success:
  assumes mac: "present (c_mac c) = Some mac" and email: "present (c_email c) = Some email"
    and opted: "isOptedIn (c_opt_in c)"
    and found: "getLocationByMAC e s mac = Inr (Some m)"
    and fresh: "isContactSynced e s (ghl_location_id m) email = Inr False"
    and token: "ensureValidToken e s m = (Inr tok, sa)"
    and crm: "create_reply e = Ok (Some contactId)"
    and w1: "db_fault e AtRecordSyncedContact = None" and w2: "db_fault e AtLogSyncSuccess = None"
  shows "processContact e s c =
     (Inr \<lparr>status = ''success'', reason = None, res_ghl_contact_id = contactId,
           res_ghl_location_id = Some (ghl_location_id m)\<rparr>,
      sa\<lparr>crm_calls := crm_calls sa @
             [CreateContactCall tok
                \<lparr>cb_locationId = ghl_location_id m, cb_email = email,
                 cb_source = ''VivaSpot WiFi'', cb_tags = [''vivaspot-wifi''],
                 cb_firstName = present (Some (fst (parseName (c_name c)))),
                 cb_lastName = present (Some (snd (parseName (c_name c)))),
                 cb_phone = present (c_phone c)\<rparr>],
         synced_contacts := synced_contacts s @
             [\<lparr>sc_ghl_location_id = ghl_location_id m, sc_contact_email = toLowerCase email,
               sc_ghl_contact_id = contactId\<rparr>],
         sync_log := sync_log s @
             [\<lparr>sl_ghl_location_id = ghl_location_id m, sl_vivaspot_mac = mac,
               sl_contact_email = email, sl_status = ''success'',
               sl_ghl_contact_id = contactId, sl_error_message = None\<rparr>]\<rparr>)"
proof -
  from ensureValidToken_frame [OF token]
  have fa: "synced_contacts sa = synced_contacts s" "sync_log sa = sync_log s" by simp_all
  from fresh have nomark: "\<not> has_marker (synced_contacts s) (ghl_location_id m) (toLowerCase email)"
    by (auto simp: isContactSynced_def split: option.splits)
  obtain firstName lastName where pn: "parseName (c_name c) = (firstName, lastName)"
    by (cases "parseName (c_name c)")
  show ?thesis
    using mac email opted found fresh token crm w1 w2 fa nomark pn
    by (simp add: processContact_def try_sync_def createContact_def recordSyncedContact_def
        logSync_def Let_def)
qed

lemma processContact_already_synced:
  assumes mac: "present (c_mac c) = Some mac" and email: "present (c_email c) = Some email"
    and opted: "isOptedIn (c_opt_in c)"
    and found: "getLocationByMAC e s mac = Inr (Some m)"
    and ans: "db_fault e AtIsContactSynced = None"
    and marked: "has_marker (synced_contacts s) (ghl_location_id m) (toLowerCase email)"
  shows "processContact e s c = (Inr (outcome ''skipped'' ''Already synced''), s)"
  using assms by (simp add: processContact_def isContactSynced_def)

lemma processContact_ledger_backed:
  assumes run: "processContact e s c = (r, s')" and inv: "ledger_backed s"
  shows "ledger_backed s'"
proof -
  from processContact_cases [OF run]
  have keep: "\<And>loc k. has_marker (synced_contacts s) loc k \<Longrightarrow> has_marker (synced_contacts s') loc k"
    and shape: "s' = s \<or> sync_log s' = sync_log s
        \<or> (\<exists>entry. sync_log s' = sync_log s @ [entry] \<and> sl_status entry = ''error'')
        \<or> (\<exists>entry. sync_log s' = sync_log s @ [entry] \<and> sl_status entry = ''success''
                \<and> has_marker (synced_contacts s') (sl_ghl_location_id entry)
                      (toLowerCase (sl_contact_email entry)))"
    by blast+
  from inv keep have old: "list_all (\<lambda>l. sl_status l = ''success'' \<longrightarrow>
                     has_marker (synced_contacts s') (sl_ghl_location_id l)
                       (toLowerCase (sl_contact_email l))) (sync_log s)"
    by (auto simp: ledger_backed_def list_all_iff)
  from shape show ?thesis
  proof (elim disjE exE conjE)
    assume "s' = s" with inv show ?thesis by simp
  next
    assume "sync_log s' = sync_log s" with old show ?thesis by (simp add: ledger_backed_def)
  next
    fix entry assume "sync_log s' = sync_log s @ [entry]" "sl_status entry = ''error''"
    with old show ?thesis by (simp add: ledger_backed_def)
  next
    fix entry assume "sync_log s' = sync_log s @ [entry]" "sl_status entry = ''success''"
      "has_marker (synced_contacts s') (sl_ghl_location_id entry) (toLowerCase (sl_contact_email entry))"
    with old show ?thesis by (simp add: ledger_backed_def)
  qed
qed

lemma ledger_backed_fresh_install:
  "sync_log s = [] \<Longrightarrow> ledger_backed s"
  by (simp add: ledger_backed_def)

text \<open>
  Claim C1 says that the first of two events with the same location and email returns
  \<open>success\<close> as soon as it reaches the CRM call and the CRM call succeeds, and that
  one marker and one success ledger entry exist after both.  The marker and the ledger
  entry are written inside the \<open>try\<close> block after the CRM call.  When the CRM creates
  the contact and the write of the success entry fails, the first invocation returns
  \<open>error\<close>, the second is skipped, and the ledger holds one error entry and no success
  entry.  When the write of the marker fails, the first invocation returns \<open>error\<close>
  and the second one, with everything answering, returns \<open>success\<close> after a second
  contact-creation request.
\<close>

theorem sync_twice_counterexample:
  "create_reply example_env_success_entry_down = Ok (Some (Some ''contact-1''))
   \<and> fst (processContact example_env_success_entry_down example_system example_contact)
       = Inr (outcome ''error'' ''disk full'')
   \<and> fst (processContact example_env
             (snd (processContact example_env_success_entry_down example_system example_contact))
             example_contact)
       = Inr (outcome ''skipped'' ''Already synced'')
   \<and> sync_log (snd (processContact example_env
                       (snd (processContact example_env_success_entry_down example_system
                               example_contact))
                       example_contact))
       = [\<lparr>sl_ghl_location_id = ''loc1'', sl_vivaspot_mac = ''00-18-0a-27-29-76'',
           sl_contact_email = ''Guest@X.com'', sl_status = ''error'', sl_ghl_contact_id = None,
           sl_error_message = Some ''disk full''\<rparr>]
   \<and> create_reply example_env_marker_down = Ok (Some (Some ''contact-1''))
   \<and> fst (processContact example_env_marker_down example_system example_contact)
       = Inr (outcome ''error'' ''deadlock detected'')
   \<and> fst (processContact example_env
             (snd (processContact example_env_marker_down example_system example_contact))
             example_contact)
       = Inr \<lparr>status = ''success'', reason = None, res_ghl_contact_id = Some ''contact-1'',
               res_ghl_location_id = Some ''loc1''\<rparr>
   \<and> length (crm_calls (snd (processContact example_env
                       (snd (processContact example_env_marker_down example_system example_contact))
                       example_contact))) = 2"
  by (simp add: example_env_success_entry_down_def example_env_marker_down_def example_defs
      pipeline_eval string_eval)

text \<open>
  Claim C1, amended.  Take an event that reaches the CRM call (MAC and email present,
  opted in, mapped to a location, no marker yet, access token obtained) in a state
  whose ledger is backed by markers (as it is after a fresh installation, and as
  \<open>processContact\<close> keeps it), let the CRM create the contact and let the storage
  layer take the write of the marker and the write of the success ledger entry.  Then
  the first invocation returns \<open>success\<close>; a second event with the same email that is
  mapped to the same location, processed in the state the first one left with the
  storage layer answering the idempotence check, returns \<open>skipped\<close> with the reason
  \<open>Already synced\<close>; and after both there is exactly one marker row and exactly one
  success ledger entry for the location and the email.
\<close>

theorem sync_twice_idempotent:
  assumes mac1: "present (c_mac c1) = Some mac1" and email1: "present (c_email c1) = Some email"
    and opted1: "isOptedIn (c_opt_in c1)"
    and found1: "getLocationByMAC e1 s mac1 = Inr (Some m1)"
    and fresh1: "isContactSynced e1 s (ghl_location_id m1) email = Inr False"
    and token1: "fst (ensureValidToken e1 s m1) = Inr token"
    and crm1: "create_reply e1 = Ok (Some contactId)"
    and write1: "db_fault e1 AtRecordSyncedContact = None" "db_fault e1 AtLogSyncSuccess = None"
    and backed: "ledger_backed s"
    and first: "processContact e1 s c1 = (r1, s1)"
    and mac2: "present (c_mac c2) = Some mac2" and email2: "present (c_email c2) = Some email"
    and opted2: "isOptedIn (c_opt_in c2)"
    and found2: "getLocationByMAC e2 s1 mac2 = Inr (Some m2)"
    and same: "ghl_location_id m2 = ghl_location_id m1"
    and check2: "db_fault e2 AtIsContactSynced = None"
    and second: "processContact e2 s1 c2 = (r2, s2)"
  shows "(\<exists>res. r1 = Inr res \<and> status res = ''success'')
       \<and> r2 = Inr (outcome ''skipped'' ''Already synced'')
       \<and> length (filter (\<lambda>sc. sc_ghl_location_id sc = ghl_location_id m1
                                \<and> sc_contact_email sc = toLowerCase email)
                        (synced_contacts s2)) = 1
       \<and> length (filter (\<lambda>l. sl_ghl_location_id l = ghl_location_id m1
                               \<and> sl_contact_email l = email \<and> sl_status l = ''success'')
                        (sync_log s2)) = 1"
proof -
  obtain sa where token: "ensureValidToken e1 s m1 = (Inr token, sa)"
    using token1 by (cases "ensureValidToken e1 s m1") simp
  note run1 = processContact_success [OF mac1 email1 opted1 found1 fresh1 token crm1 write1]
  from fresh1 have nomark: "\<not> has_marker (synced_contacts s) (ghl_location_id m1) (toLowerCase email)"
    by (auto simp: isContactSynced_def split: option.splits)
  from run1 first have r1: "r1 = Inr \<lparr>status = ''success'', reason = None,
      res_ghl_contact_id = contactId, res_ghl_location_id = Some (ghl_location_id m1)\<rparr>"
    and markers: "synced_contacts s1 = synced_contacts s @
        [\<lparr>sc_ghl_location_id = ghl_location_id m1, sc_contact_email = toLowerCase email,
          sc_ghl_contact_id = contactId\<rparr>]"
    and ledger: "sync_log s1 = sync_log s @
        [\<lparr>sl_ghl_location_id = ghl_location_id m1, sl_vivaspot_mac = mac1,
          sl_contact_email = email, sl_status = ''success'',
          sl_ghl_contact_id = contactId, sl_error_message = None\<rparr>]"
    by auto
  have marked: "has_marker (synced_contacts s1) (ghl_location_id m2) (toLowerCase email)"
    by (simp add: markers same has_marker_def)
  from processContact_already_synced [OF mac2 email2 opted2 found2 check2 marked] second
  have r2: "r2 = Inr (outcome ''skipped'' ''Already synced'')" and s2: "s2 = s1"
    by simp_all
  have one_marker: "length (filter (\<lambda>sc. sc_ghl_location_id sc = ghl_location_id m1
                                \<and> sc_contact_email sc = toLowerCase email)
                        (synced_contacts s2)) = 1"
    by (simp add: s2 markers no_marker_filter [OF nomark])
  from no_marker_no_success [OF backed nomark]
  have "filter (\<lambda>l. sl_ghl_location_id l = ghl_location_id m1
                    \<and> sl_contact_email l = email \<and> sl_status l = ''success'') (sync_log s) = []"
    by (auto simp: filter_empty_conv)
  then have one_entry: "length (filter (\<lambda>l. sl_ghl_location_id l = ghl_location_id m1
                               \<and> sl_contact_email l = email \<and> sl_status l = ''success'')
                        (sync_log s2)) = 1"
    by (simp add: s2 ledger)
  from r1 r2 one_marker one_entry show ?thesis by simp
qed

theorem sync_twice_idempotent_witness:
  "fst (processContact example_env example_system example_contact)
     = Inr \<lparr>status = ''success'', reason = None, res_ghl_contact_id = Some ''contact-1'',
             res_ghl_location_id = Some ''loc1''\<rparr>
   \<and> fst (processContact example_env example_system_synced example_contact)
       = Inr (outcome ''skipped'' ''Already synced'')
   \<and> length (filter (\<lambda>sc. sc_ghl_location_id sc = ''loc1'' \<and> sc_contact_email sc = ''guest@x.com'')
         (synced_contacts (snd (processContact example_env example_system_synced example_contact)))) = 1
   \<and> length (filter (\<lambda>l. sl_ghl_location_id l = ''loc1'' \<and> sl_contact_email l = ''Guest@X.com''
                           \<and> sl_status l = ''success'')
         (sync_log (snd (processContact example_env example_system_synced example_contact)))) = 1"
proof -
  have mac: "present (c_mac example_contact) = Some ''00-18-0a-27-29-76''"
    and email: "present (c_email example_contact) = Some ''Guest@X.com''"
    and opted: "isOptedIn (c_opt_in example_contact)"
    by (simp_all add: example_contact_def present_def)
  have found1: "getLocationByMAC example_env example_system ''00-18-0a-27-29-76''
      = Inr (Some example_row_fresh)"
    by (simp add: example_defs example_row_fresh_def pipeline_eval string_eval)
  have fresh1: "isContactSynced example_env example_system (ghl_location_id example_row_fresh)
      ''Guest@X.com'' = Inr False"
    by (simp add: example_defs example_row_fresh_def pipeline_eval string_eval)
  have token1: "fst (ensureValidToken example_env example_system example_row_fresh) = Inr ''access-1''"
    by (simp add: example_defs example_row_fresh_def pipeline_eval)
  have crm1: "create_reply example_env = Ok (Some (Some ''contact-1''))"
    and write1: "db_fault example_env AtRecordSyncedContact = None"
      "db_fault example_env AtLogSyncSuccess = None"
    and check2: "db_fault example_env AtIsContactSynced = None"
    by (simp_all add: example_env_def)
  have backed: "ledger_backed example_system"
    by (simp add: ledger_backed_def example_system_def)
  have first: "processContact example_env example_system example_contact
      = (fst (processContact example_env example_system example_contact), example_system_synced)"
    by (simp add: example_system_synced_def)
  have found2: "getLocationByMAC example_env example_system_synced ''00-18-0a-27-29-76''
      = Inr (Some example_row_fresh)"
    by (simp add: example_system_synced_def example_defs example_row_fresh_def pipeline_eval
        string_eval)
  have second: "processContact example_env example_system_synced example_contact
      = (fst (processContact example_env example_system_synced example_contact),
         snd (processContact example_env example_system_synced example_contact))"
    by simp
  from sync_twice_idempotent [OF mac email opted found1 fresh1 token1 crm1 write1 backed first
      mac email opted found2 refl check2 second]
  show ?thesis
    by (simp add: example_row_fresh_def example_defs pipeline_eval string_eval)
qed

text \<open>
  Claim C9.  The idempotence key ignores the letter case of the email: the marker is
  stored under the lower-cased email and looked up under the lower-cased email.  When
  a first event has been synced, an event for the same location whose email differs
  from the first one only in letter case is skipped as already synced; the request
  that created the contact carried the email of the first event as it was written.
\<close>

theorem idempotence_key_ignores_case:
  assumes mac1: "present (c_mac c1) = Some mac1" and email1: "present (c_email c1) = Some email1"
    and opted1: "isOptedIn (c_opt_in c1)"
    and found1: "getLocationByMAC e1 s mac1 = Inr (Some m1)"
    and fresh1: "isContactSynced e1 s (ghl_location_id m1) email1 = Inr False"
    and token1: "ensureValidToken e1 s m1 = (Inr token, sa)"
    and crm1: "create_reply e1 = Ok (Some contactId)"
    and write1: "db_fault e1 AtRecordSyncedContact = None" "db_fault e1 AtLogSyncSuccess = None"
    and first: "processContact e1 s c1 = (r1, s1)"
    and mac2: "present (c_mac c2) = Some mac2" and email2: "present (c_email c2) = Some email2"
    and folded: "toLowerCase email2 = toLowerCase email1"
    and opted2: "isOptedIn (c_opt_in c2)"
    and found2: "getLocationByMAC e2 s1 mac2 = Inr (Some m2)"
    and same: "ghl_location_id m2 = ghl_location_id m1"
    and check2: "db_fault e2 AtIsContactSynced = None"
  shows "processContact e2 s1 c2 = (Inr (outcome ''skipped'' ''Already synced''), s1)
       \<and> isContactSynced e2 s1 (ghl_location_id m1) email2 = Inr True
       \<and> last (synced_contacts s1)
           = \<lparr>sc_ghl_location_id = ghl_location_id m1, sc_contact_email = toLowerCase email1,
              sc_ghl_contact_id = contactId\<rparr>
       \<and> (\<exists>body. crm_calls s1 = crm_calls sa @ [CreateContactCall token body]
                   \<and> cb_email body = email1)"
proof -
  note run1 = processContact_success [OF mac1 email1 opted1 found1 fresh1 token1 crm1 write1]
  from run1 first have markers: "synced_contacts s1 = synced_contacts s @
        [\<lparr>sc_ghl_location_id = ghl_location_id m1, sc_contact_email = toLowerCase email1,
          sc_ghl_contact_id = contactId\<rparr>]"
    and calls: "\<exists>body. crm_calls s1 = crm_calls sa @ [CreateContactCall token body]
                   \<and> cb_email body = email1"
    by auto
  have marked: "has_marker (synced_contacts s1) (ghl_location_id m2) (toLowerCase email2)"
    by (simp add: markers same folded has_marker_def)
  from processContact_already_synced [OF mac2 email2 opted2 found2 check2 marked]
  have skipped: "processContact e2 s1 c2 = (Inr (outcome ''skipped'' ''Already synced''), s1)" .
  from marked check2 have dup: "isContactSynced e2 s1 (ghl_location_id m1) email2 = Inr True"
    by (simp add: isContactSynced_def same)
  from skipped dup markers calls show ?thesis by simp
qed

theorem idempotence_key_ignores_case_witness:
  "processContact example_env example_system_synced (example_contact\<lparr>c_email := Some ''GUEST@x.COM''\<rparr>)
     = (Inr (outcome ''skipped'' ''Already synced''), example_system_synced)
   \<and> crm_calls example_system_synced
       = [CreateContactCall ''access-1''
            \<lparr>cb_locationId = ''loc1'', cb_email = ''Guest@X.com'', cb_source = ''VivaSpot WiFi'',
             cb_tags = [''vivaspot-wifi''], cb_firstName = Some ''John'',
             cb_lastName = Some ''Doe Jr'', cb_phone = None\<rparr>]
   \<and> synced_contacts example_system_synced
       = [\<lparr>sc_ghl_location_id = ''loc1'', sc_contact_email = ''guest@x.com'',
           sc_ghl_contact_id = Some ''contact-1''\<rparr>]"
proof -
  let ?c2 = "example_contact\<lparr>c_email := Some ''GUEST@x.COM''\<rparr>"
  have mac: "present (c_mac example_contact) = Some ''00-18-0a-27-29-76''"
    and email: "present (c_email example_contact) = Some ''Guest@X.com''"
    and opted: "isOptedIn (c_opt_in example_contact)"
    and mac2: "present (c_mac ?c2) = Some ''00-18-0a-27-29-76''"
    and email2: "present (c_email ?c2) = Some ''GUEST@x.COM''"
    and opted2: "isOptedIn (c_opt_in ?c2)"
    by (simp_all add: example_contact_def present_def)
  have folded: "toLowerCase ''GUEST@x.COM'' = toLowerCase ''Guest@X.com''"
    by (simp add: string_eval)
  have found1: "getLocationByMAC example_env example_system ''00-18-0a-27-29-76''
      = Inr (Some example_row_fresh)"
    by (simp add: example_defs example_row_fresh_def pipeline_eval string_eval)
  have fresh1: "isContactSynced example_env example_system (ghl_location_id example_row_fresh)
      ''Guest@X.com'' = Inr False"
    by (simp add: example_defs example_row_fresh_def pipeline_eval string_eval)
  have token1: "ensureValidToken example_env example_system example_row_fresh
      = (Inr ''access-1'', example_system)"
    by (simp add: example_defs example_row_fresh_def pipeline_eval)
  have crm1: "create_reply example_env = Ok (Some (Some ''contact-1''))"
    and write1: "db_fault example_env AtRecordSyncedContact = None"
      "db_fault example_env AtLogSyncSuccess = None"
    and check2: "db_fault example_env AtIsContactSynced = None"
    by (simp_all add: example_env_def)
  have first: "processContact example_env example_system example_contact
      = (fst (processContact example_env example_system example_contact), example_system_synced)"
    by (simp add: example_system_synced_def)
  have found2: "getLocationByMAC example_env example_system_synced ''00-18-0a-27-29-76''
      = Inr (Some example_row_fresh)"
    by (simp add: example_system_synced_def example_defs example_row_fresh_def pipeline_eval
        string_eval)
  from idempotence_key_ignores_case [OF mac email opted found1 fresh1 token1 crm1 write1 first
      mac2 email2 folded opted2 found2 refl check2]
  have "processContact example_env example_system_synced ?c2
     = (Inr (outcome ''skipped'' ''Already synced''), example_system_synced)"
    by simp
  then show ?thesis
    by (simp add: example_system_synced_def example_defs pipeline_eval string_eval)
qed

section \<open>Properties of the mapping store\<close>

lemmas mapping_eval =
  createMacMappings_def createMacMappingsWithTag_def normalize_mac_lower_def upsert_mac_def
  getMacMappingWithTag_def Let_def

lemma map_macs_count:
  "fst (map_macs loc sr st macs (n, tbl))
     = n + length (filter (\<lambda>mac. 11 \<le> length (normalize_mac_lower mac)) macs)"
  by (induction macs arbitrary: n tbl) (auto simp: Let_def)

lemma upsert_mac_keys:
  "map mm_mac_address (upsert_mac tbl k loc sr st)
     = (if k \<in> set (map mm_mac_address tbl) then map mm_mac_address tbl
        else map mm_mac_address tbl @ [k])"
proof -
  have same: "map mm_mac_address (map (\<lambda>r. if mm_mac_address r = k
                     then r\<lparr>mm_ghl_location_id := loc, mm_source_restaurant := sr,
                            mm_source_tag := st\<rparr> else r) tbl) = map mm_mac_address tbl"
    by (induction tbl) auto
  have ex: "(filter (\<lambda>r. mm_mac_address r = k) tbl \<noteq> []) = (k \<in> set (map mm_mac_address tbl))"
    by (auto simp: filter_empty_conv)
  show ?thesis
    using ex by (auto simp: upsert_mac_def same simp del: map_map)
qed

lemma map_macs_keys:
  "distinct (map mm_mac_address tbl) \<Longrightarrow>
     distinct (map mm_mac_address (snd (map_macs loc sr st macs (n, tbl))))
     \<and> set (map mm_mac_address (snd (map_macs loc sr st macs (n, tbl))))
         = set (map mm_mac_address tbl)
           \<union> normalize_mac_lower ` {mac \<in> set macs. 11 \<le> length (normalize_mac_lower mac)}"
proof (induction macs arbitrary: n tbl)
  case Nil
  then show ?case by simp
next
  case (Cons mac macs)
  show ?case
  proof (cases "11 \<le> length (normalize_mac_lower mac)")
    case False
    with Cons.IH [OF Cons.prems, of n] show ?thesis by (auto simp: Let_def)
  next
    case True
    let ?tbl = "upsert_mac tbl (normalize_mac_lower mac) loc sr st"
    from Cons.prems have d: "distinct (map mm_mac_address ?tbl)"
      by (simp add: upsert_mac_keys)
    have keys: "set (map mm_mac_address ?tbl) = insert (normalize_mac_lower mac) (set (map mm_mac_address tbl))"
      by (auto simp: upsert_mac_keys)
    from True have step: "map_macs loc sr st (mac # macs) (n, tbl) = map_macs loc sr st macs (n + 1, ?tbl)"
      by (auto simp: Let_def)
    from Cons.IH [OF d, of "n + 1"] True show ?thesis
      unfolding step keys by auto
  qed
qed

lemma one_row_per_key:
  "distinct (map f xs) \<Longrightarrow> k \<in> set (map f xs) \<Longrightarrow> length (filter (\<lambda>r. f r = k) xs) = 1"
proof (induction xs)
  case Nil
  then show ?case by simp
next
  case (Cons x xs)
  then show ?case by (auto simp: filter_empty_conv image_iff)
qed

text \<open>
  Claim C10.  The number that \<open>createMacMappingsWithTag\<close> returns counts the entries
  of the input list that have at least 11 characters after lower-casing and trimming,
  once per occurrence; shorter entries count 0 (an absent list gives 0).  It is not the
  number of rows: when the table had at most one row per MAC address before the call,
  it has exactly one row for each accepted entry afterwards, however often the entry
  occurs in the list.
\<close>

theorem createMacMappingsWithTag_count:
  "fst (createMacMappingsWithTag tbl loc None sr st) = 0
   \<and> fst (createMacMappingsWithTag tbl loc (Some macs) sr st)
       = length (filter (\<lambda>mac. 11 \<le> length (trim (toLowerCase mac))) macs)
   \<and> (distinct (map mm_mac_address tbl) \<longrightarrow>
        (\<forall>mac \<in> set macs. 11 \<le> length (trim (toLowerCase mac)) \<longrightarrow>
           length (filter (\<lambda>r. mm_mac_address r = trim (toLowerCase mac))
                     (snd (createMacMappingsWithTag tbl loc (Some macs) sr st))) = 1))"
proof (intro conjI impI ballI)
  show "fst (createMacMappingsWithTag tbl loc None sr st) = 0"
    by (simp add: createMacMappingsWithTag_def)
  show "fst (createMacMappingsWithTag tbl loc (Some macs) sr st)
       = length (filter (\<lambda>mac. 11 \<le> length (trim (toLowerCase mac))) macs)"
    using map_macs_count [of loc sr st macs 0 tbl]
    by (cases macs) (simp_all add: createMacMappingsWithTag_def normalize_mac_lower_def)
  fix mac
  assume d: "distinct (map mm_mac_address tbl)" and m: "mac \<in> set macs"
    and ok: "11 \<le> length (trim (toLowerCase mac))"
  from m have run: "createMacMappingsWithTag tbl loc (Some macs) sr st
      = map_macs loc sr st macs (0, tbl)"
    by (cases macs) (simp_all add: createMacMappingsWithTag_def)
  from map_macs_keys [OF d, of loc sr st macs 0] m ok
  have "distinct (map mm_mac_address (snd (map_macs loc sr st macs (0, tbl))))"
    and "trim (toLowerCase mac) \<in> set (map mm_mac_address (snd (map_macs loc sr st macs (0, tbl))))"
    by (auto simp: normalize_mac_lower_def)
  then show "length (filter (\<lambda>r. mm_mac_address r = trim (toLowerCase mac))
                     (snd (createMacMappingsWithTag tbl loc (Some macs) sr st))) = 1"
    unfolding run by (rule one_row_per_key)
qed

theorem createMacMappingsWithTag_count_witness:
  "fst (createMacMappingsWithTag [] ''loc1''
          (Some [''AA:BB:CC:DD:EE:FF'', '' aa:bb:cc:dd:ee:ff '', ''short'']) None None) = 2
   \<and> length (filter (\<lambda>r. mm_mac_address r = ''aa:bb:cc:dd:ee:ff'')
         (snd (createMacMappingsWithTag [] ''loc1''
                 (Some [''AA:BB:CC:DD:EE:FF'', '' aa:bb:cc:dd:ee:ff '', ''short'']) None None))) = 1"
proof -
  let ?macs = "[''AA:BB:CC:DD:EE:FF'', '' aa:bb:cc:dd:ee:ff '', ''short'']"
  have d: "distinct (map mm_mac_address [])" by simp
  have m: "''AA:BB:CC:DD:EE:FF'' \<in> set ?macs" by simp
  have key: "trim (toLowerCase ''AA:BB:CC:DD:EE:FF'') = ''aa:bb:cc:dd:ee:ff''"
    by (simp add: string_eval)
  have ok: "11 \<le> length (trim (toLowerCase ''AA:BB:CC:DD:EE:FF''))"
    by (simp add: key)
  have accepted: "length (filter (\<lambda>mac. 11 \<le> length (trim (toLowerCase mac))) ?macs) = 2"
    by (simp add: string_eval)
  from createMacMappingsWithTag_count [of "[]" "''loc1''" None None ?macs] d m ok
  have "fst (createMacMappingsWithTag [] ''loc1'' (Some ?macs) None None)
       = length (filter (\<lambda>mac. 11 \<le> length (trim (toLowerCase mac))) ?macs)
     \<and> length (filter (\<lambda>r. mm_mac_address r = trim (toLowerCase ''AA:BB:CC:DD:EE:FF''))
          (snd (createMacMappingsWithTag [] ''loc1'' (Some ?macs) None None))) = 1"
    by blast
  then show ?thesis
    by (simp only: key accepted)
qed

text \<open>
  Claim C7 says that onboarding and the sync path normalize a device identifier with
  the same function, so that a device mapped during onboarding is found under every
  accepted spelling.  The code has three normalizers.  The manual set-up accepts
  \<open>00-18-0A-27-29-76\<close> and stores \<open>00:18:0a:27:29:76\<close>; the lookup of the tagged
  sync path (\<open>getMacMappingWithTag\<close>) only lower-cases and trims, looks for
  \<open>00-18-0a-27-29-76\<close> and finds nothing for the very spelling that was entered.
  \<open>addLocationMapping\<close> and the lookup of \<open>getLocationByMAC\<close> upper-case and replace
  hyphens, so that an event that spells a mapped access point without separators is
  not found either.
\<close>

theorem device_normalizers_disagree:
  "setup_save example_system [] ''loc1'' [''00-18-0A-27-29-76'']
     = (Saved 1, [\<lparr>mm_mac_address = ''00:18:0a:27:29:76'', mm_ghl_location_id = ''loc1'',
                    mm_source_restaurant = None, mm_source_tag = None\<rparr>])
   \<and> getMacMappingWithTag (snd (setup_save example_system [] ''loc1'' [''00-18-0A-27-29-76'']))
         ''00-18-0A-27-29-76'' = None
   \<and> normalizeMacAddress ''00-18-0A-27-29-76'' = Some ''00:18:0a:27:29:76''
   \<and> normalize_mac_lower ''00-18-0A-27-29-76'' = ''00-18-0a-27-29-76''
   \<and> normalize_mac_upper ''00-18-0A-27-29-76'' = ''00:18:0A:27:29:76''
   \<and> addLocationMapping [] ''loc1'' ''00-18-0a-27-29-76'' ''Bar''
       = [\<lparr>lm_ghl_location_id = ''loc1'', lm_vivaspot_mac = ''00:18:0A:27:29:76'',
           lm_vivaspot_location = ''Bar''\<rparr>]
   \<and> getLocationByMAC example_env example_system ''00-18-0a-27-29-76'' = Inr (Some example_row_fresh)
   \<and> getLocationByMAC example_env example_system ''00180a272976'' = Inr None
   \<and> fst (processContact example_env example_system (example_contact\<lparr>c_mac := Some ''00180a272976''\<rparr>))
       = Inr (outcome ''skipped'' ''No GHL mapping for this MAC address'')"
  by (simp add: setup_save_def getGHLConnection_def List.map_filter_def normalizeMacAddress_def
      is_mac_separator_def is_lower_hex_def addLocationMapping_def mapping_eval example_defs
      example_row_fresh_def pipeline_eval string_eval)

section \<open>Properties of the site matcher\<close>

lemmas matcher_eval =
  findVivaSpotMatch_def group_rows_def owned_by_def sql_like_def name_matches_def
  matchingWords_def name_words_def split_runs_def venue_def byte_order_def Let_def

subsection \<open>\<open>LIKE\<close> with a pattern that has no pattern characters\<close>

lemma like_percent: "like_match ''%'' s"
  by (induction s) auto

lemma like_plain_prefix:
  "list_all (\<lambda>c. c \<noteq> CHR ''%'' \<and> c \<noteq> CHR ''_'' \<and> c \<noteq> CHR 0x5C) n \<Longrightarrow>
     like_match (n @ ''%'') s \<longleftrightarrow> prefix n s"
proof (induction n arbitrary: s)
  case Nil
  then show ?case using like_percent by simp
next
  case (Cons c n)
  then show ?case by (cases s) auto
qed

lemma like_plain_sublist:
  assumes "list_all (\<lambda>c. c \<noteq> CHR ''%'' \<and> c \<noteq> CHR ''_'' \<and> c \<noteq> CHR 0x5C) n"
  shows "like_match (''%'' @ n @ ''%'') s \<longleftrightarrow> sublist n s"
proof (induction s)
  case Nil
  from like_plain_prefix [OF assms, of "[]"] show ?case by simp
next
  case (Cons x t)
  from like_plain_prefix [OF assms, of "x # t"] Cons show ?case
    by (simp add: sublist_Cons_right)
qed

lemma group_rows_plain:
  assumes "list_all (\<lambda>c. c \<noteq> CHR ''%'' \<and> c \<noteq> CHR ''_'' \<and> c \<noteq> CHR 0x5C) n"
  shows "group_rows sites e n
     = filter (\<lambda>v. e \<in> set (vs_merchant_emails v)
                    \<and> (\<exists>g. vs_hospitality_group v = Some g \<and> sublist n (toLowerCase g))) sites"
  unfolding group_rows_def owned_by_def sql_like_def like_plain_sublist [OF assms]
  by (rule filter_cong) (auto split: option.splits)

subsection \<open>The group strategy\<close>

lemma findVivaSpotMatch_group_found:
  fixes coll :: "string \<Rightarrow> 'k::linorder"
  assumes "2 \<le> length (group_rows sites (trim (toLowerCase email)) (trim (toLowerCase locationName)))"
  shows "\<exists>row1 others.
           sort_key (\<lambda>v. coll (vs_restaurant_name v))
             (group_rows sites (trim (toLowerCase email)) (trim (toLowerCase locationName)))
             = row1 # others
           \<and> findVivaSpotMatch coll sites email locationName
               = MatchGroup (vs_hospitality_group row1) (row1 # others)"
proof -
  let ?sorted = "sort_key (\<lambda>v. coll (vs_restaurant_name v))
             (group_rows sites (trim (toLowerCase email)) (trim (toLowerCase locationName)))"
  from assms have "2 \<le> length ?sorted" by simp
  then obtain row1 row2 others where shape: "?sorted = row1 # row2 # others"
    by (cases ?sorted; cases "tl ?sorted") auto
  then show ?thesis
    by (simp add: findVivaSpotMatch_def Let_def)
qed

lemma findVivaSpotMatch_no_group:
  fixes coll :: "string \<Rightarrow> 'k::linorder"
  assumes "length (group_rows sites (trim (toLowerCase email)) (trim (toLowerCase locationName))) < 2"
  shows "findVivaSpotMatch coll sites email locationName \<noteq> MatchGroup g venues"
proof -
  let ?sorted = "sort_key (\<lambda>v. coll (vs_restaurant_name v))
             (group_rows sites (trim (toLowerCase email)) (trim (toLowerCase locationName)))"
  from assms have "length ?sorted < 2" by simp
  then have shape: "?sorted = [] \<or> (\<exists>row. ?sorted = [row])"
    by (cases ?sorted; cases "tl ?sorted") auto
  then show ?thesis
    by (auto simp: findVivaSpotMatch_def Let_def split: list.splits)
qed

text \<open>
  Claim C5 says that the venues of a group match are those whose owner emails contain
  the email and whose group name contains the location name, ignoring case.  The
  matcher lower-cases and trims the email before the (case-sensitive) comparison with
  the stored owner emails, and it trims the location name and uses it as a \<open>LIKE\<close>
  pattern.  So two venues owned by \<open>A@x.com\<close> in group \<open>Acme Group\<close> are not found for
  (\<open>A@x.com\<close>, \<open>Acme\<close>); for the name \<open>a_me\<close> the group \<open>acme holdings\<close> matches although
  only one group name contains \<open>a_me\<close>; and for the name \<open>acme\<close> followed by a space the
  group \<open>acme\<close> matches although only one group name contains the name as written.
\<close>

theorem group_match_counterexample:
  "findVivaSpotMatch byte_order mixed_case_directory ''A@x.com'' ''Acme'' = MatchNone
   \<and> findVivaSpotMatch byte_order wildcard_directory ''a@x.com'' ''a_me''
       = MatchGroup (Some ''a_me holdings'')
           [venue 1 ''North'' ''a_me holdings'' ''a@x.com'',
            venue 2 ''South'' ''acme holdings'' ''a@x.com'']
   \<and> \<not> sublist ''a_me'' (toLowerCase ''acme holdings'')
   \<and> findVivaSpotMatch byte_order spaced_directory ''a@x.com'' ''acme ''
       = MatchGroup (Some ''acme one'')
           [venue 1 ''North'' ''acme one'' ''a@x.com'', venue 2 ''South'' ''acme'' ''a@x.com'']
   \<and> \<not> sublist ''acme '' (toLowerCase ''acme'')"
proof -
  have email: "findVivaSpotMatch byte_order mixed_case_directory ''A@x.com'' ''Acme'' = MatchNone"
    by (simp add: mixed_case_directory_def matcher_eval string_eval)
  have wildcard: "findVivaSpotMatch byte_order wildcard_directory ''a@x.com'' ''a_me''
       = MatchGroup (Some ''a_me holdings'')
           [venue 1 ''North'' ''a_me holdings'' ''a@x.com'',
            venue 2 ''South'' ''acme holdings'' ''a@x.com'']"
    by (simp add: wildcard_directory_def matcher_eval string_eval)
  have spaced: "findVivaSpotMatch byte_order spaced_directory ''a@x.com'' ''acme ''
       = MatchGroup (Some ''acme one'')
           [venue 1 ''North'' ''acme one'' ''a@x.com'', venue 2 ''South'' ''acme'' ''a@x.com'']"
    by (simp add: spaced_directory_def matcher_eval string_eval)
  have no1: "\<not> sublist ''a_me'' (toLowerCase ''acme holdings'')"
    by (simp add: string_eval sublist_Cons_right prefix_code)
  have no2: "\<not> sublist ''acme '' (toLowerCase ''acme'')"
    by (simp add: string_eval sublist_Cons_right prefix_code)
  from email wildcard spaced no1 no2 show ?thesis by simp
qed

text \<open>
  Claim C5, amended.  Let \<open>e\<close> be the email and \<open>n\<close> the location name, both lower-cased
  and trimmed.  The venues of the group query are the venues whose owner emails
  contain \<open>e\<close> and whose lower-cased group name matches the \<open>LIKE\<close> pattern \<open>%n%\<close>; when
  \<open>n\<close> has none of the pattern characters \<open>%\<close>, \<open>_\<close> and backslash, these are the venues
  whose owner emails contain \<open>e\<close> and whose lower-cased group name contains \<open>n\<close> as a
  substring.  If there are at least two such venues, the matcher returns a Group
  result with exactly those venues, ordered by display name, and the group name of
  the first of them.  If there are fewer than two, it returns no Group result.
\<close>

theorem group_match_normalized:
  fixes coll :: "string \<Rightarrow> 'k::linorder"
  shows
  "(2 \<le> length (group_rows sites (trim (toLowerCase email)) (trim (toLowerCase locationName))) \<longrightarrow>
      (\<exists>row1 others.
          findVivaSpotMatch coll sites email locationName
            = MatchGroup (vs_hospitality_group row1) (row1 # others)
          \<and> mset (row1 # others)
              = mset (group_rows sites (trim (toLowerCase email)) (trim (toLowerCase locationName)))
          \<and> sorted (map (\<lambda>v. coll (vs_restaurant_name v)) (row1 # others))))
   \<and> (length (group_rows sites (trim (toLowerCase email)) (trim (toLowerCase locationName))) < 2 \<longrightarrow>
        (\<forall>g venues. findVivaSpotMatch coll sites email locationName \<noteq> MatchGroup g venues))
   \<and> (list_all (\<lambda>c. c \<noteq> CHR ''%'' \<and> c \<noteq> CHR ''_'' \<and> c \<noteq> CHR 0x5C) (trim (toLowerCase locationName)) \<longrightarrow>
        group_rows sites (trim (toLowerCase email)) (trim (toLowerCase locationName))
          = filter (\<lambda>v. trim (toLowerCase email) \<in> set (vs_merchant_emails v)
                       \<and> (\<exists>g. vs_hospitality_group v = Some g
                                \<and> sublist (trim (toLowerCase locationName)) (toLowerCase g)))
              sites)"
proof (intro conjI impI allI)
  assume "2 \<le> length (group_rows sites (trim (toLowerCase email)) (trim (toLowerCase locationName)))"
  from findVivaSpotMatch_group_found [OF this, of coll]
  obtain row1 others where
    sorted_rows: "sort_key (\<lambda>v. coll (vs_restaurant_name v))
             (group_rows sites (trim (toLowerCase email)) (trim (toLowerCase locationName)))
             = row1 # others"
    and result: "findVivaSpotMatch coll sites email locationName
               = MatchGroup (vs_hospitality_group row1) (row1 # others)"
    by blast
  have same: "mset (row1 # others)
      = mset (group_rows sites (trim (toLowerCase email)) (trim (toLowerCase locationName)))"
    unfolding sorted_rows [symmetric] by simp
  have ordered: "sorted (map (\<lambda>v. coll (vs_restaurant_name v)) (row1 # others))"
    unfolding sorted_rows [symmetric] by (rule sorted_sort_key)
  from result same ordered
  show "\<exists>row1 others.
          findVivaSpotMatch coll sites email locationName
            = MatchGroup (vs_hospitality_group row1) (row1 # others)
          \<and> mset (row1 # others)
              = mset (group_rows sites (trim (toLowerCase email)) (trim (toLowerCase locationName)))
          \<and> sorted (map (\<lambda>v. coll (vs_restaurant_name v)) (row1 # others))"
    by blast
next
  fix g venues
  assume "length (group_rows sites (trim (toLowerCase email)) (trim (toLowerCase locationName))) < 2"
  then show "findVivaSpotMatch coll sites email locationName \<noteq> MatchGroup g venues"
    by (rule findVivaSpotMatch_no_group)
next
  assume "list_all (\<lambda>c. c \<noteq> CHR ''%'' \<and> c \<noteq> CHR ''_'' \<and> c \<noteq> CHR 0x5C) (trim (toLowerCase locationName))"
  then show "group_rows sites (trim (toLowerCase email)) (trim (toLowerCase locationName))
          = filter (\<lambda>v. trim (toLowerCase email) \<in> set (vs_merchant_emails v)
                       \<and> (\<exists>g. vs_hospitality_group v = Some g
                                \<and> sublist (trim (toLowerCase locationName)) (toLowerCase g)))
              sites"
    by (rule group_rows_plain)
qed

theorem group_match_normalized_witness:
  "findVivaSpotMatch byte_order acme_directory ''a@x.com'' ''Acme''
     = MatchGroup (Some ''Acme Group'')
         [venue 2 ''Acme Bistro'' ''Acme Group'' ''a@x.com'',
          venue 1 ''Acme Cafe'' ''Acme Group'' ''a@x.com'']
   \<and> findVivaSpotMatch byte_order acme_directory ''b@y.com'' ''joes diner''
       = MatchSingle (venue 3 ''Joe's Diner'' ''Diners United'' ''b@y.com'')
   \<and> filter (\<lambda>v. ''a@x.com'' \<in> set (vs_merchant_emails v)
                  \<and> (\<exists>g. vs_hospitality_group v = Some g \<and> sublist ''acme'' (toLowerCase g)))
        acme_directory
       = [venue 1 ''Acme Cafe'' ''Acme Group'' ''a@x.com'',
          venue 2 ''Acme Bistro'' ''Acme Group'' ''a@x.com'']"
proof -
  have keys: "trim (toLowerCase ''a@x.com'') = ''a@x.com''" "trim (toLowerCase ''Acme'') = ''acme''"
    "trim (toLowerCase ''b@y.com'') = ''b@y.com''" "trim (toLowerCase ''joes diner'') = ''joes diner''"
    by (simp_all add: string_eval)
  have rows: "group_rows acme_directory ''a@x.com'' ''acme''
      = [venue 1 ''Acme Cafe'' ''Acme Group'' ''a@x.com'',
         venue 2 ''Acme Bistro'' ''Acme Group'' ''a@x.com'']"
    by (simp add: acme_directory_def matcher_eval string_eval)
  have none: "group_rows acme_directory ''b@y.com'' ''joes diner'' = []"
    by (simp add: acme_directory_def matcher_eval string_eval)
  have two: "2 \<le> length (group_rows acme_directory (trim (toLowerCase ''a@x.com''))
                           (trim (toLowerCase ''Acme'')))"
    by (simp add: keys rows)
  have fewer: "length (group_rows acme_directory (trim (toLowerCase ''b@y.com''))
                          (trim (toLowerCase ''joes diner''))) < 2"
    by (simp add: keys none)
  have plain: "list_all (\<lambda>c. c \<noteq> CHR ''%'' \<and> c \<noteq> CHR ''_'' \<and> c \<noteq> CHR 0x5C)
                 (trim (toLowerCase ''Acme''))"
    by (simp add: keys)
  from group_match_normalized
         [where coll = byte_order and sites = acme_directory and email = "''a@x.com''"
            and locationName = "''Acme''"] two plain
  have group: "\<exists>row1 others.
          findVivaSpotMatch byte_order acme_directory ''a@x.com'' ''Acme''
            = MatchGroup (vs_hospitality_group row1) (row1 # others)"
    and substring: "group_rows acme_directory ''a@x.com'' ''acme''
      = filter (\<lambda>v. ''a@x.com'' \<in> set (vs_merchant_emails v)
                  \<and> (\<exists>g. vs_hospitality_group v = Some g \<and> sublist ''acme'' (toLowerCase g)))
          acme_directory"
    unfolding keys by blast+
  from group_match_normalized
         [where coll = byte_order and sites = acme_directory and email = "''b@y.com''"
            and locationName = "''joes diner''"] fewer
  have single: "\<forall>g venues. findVivaSpotMatch byte_order acme_directory ''b@y.com'' ''joes diner''
      \<noteq> MatchGroup g venues"
    by blast
  from group have first: "findVivaSpotMatch byte_order acme_directory ''a@x.com'' ''Acme''
     = MatchGroup (Some ''Acme Group'')
         [venue 2 ''Acme Bistro'' ''Acme Group'' ''a@x.com'',
          venue 1 ''Acme Cafe'' ''Acme Group'' ''a@x.com'']"
    by (simp add: acme_directory_def matcher_eval string_eval)
  from single have second: "findVivaSpotMatch byte_order acme_directory ''b@y.com'' ''joes diner''
       = MatchSingle (venue 3 ''Joe's Diner'' ''Diners United'' ''b@y.com'')"
    by (simp add: acme_directory_def matcher_eval string_eval)
  from first second substring [symmetric] rows show ?thesis
    by simp
qed

end
